theory Spec2Isabelle
  imports Main "HOL-Library.Sublist"
begin

unbundle bit_operations_syntax

section \<open>dep-dl: fetching the projects of a Gopkg.lock\<close>

text \<open>
  A shallow embedding of \<^verbatim>\<open>main.go\<close>. Go strings are byte sequences and are modelled
  as \<^typ>\<open>string\<close> (a list of 8-bit characters). The functions of Go's standard library
  that the program calls are modelled from their documented behaviour, each under the
  name of the Go function with the package name in front.
\<close>

subsection \<open>Standard library: package strings\<close>

text \<open>\<^verbatim>\<open>strings.Split(s, "/")\<close>, for a separator of one byte: the result always has
  one more element than \<open>s\<close> has separators.\<close>

fun strings_Split :: "string \<Rightarrow> char \<Rightarrow> string list" where
  "strings_Split [] sep = [[]]"
| "strings_Split (c # cs) sep =
     (if c = sep then [] # strings_Split cs sep
      else (case strings_Split cs sep of
              [] \<Rightarrow> [[c]]
            | e # es \<Rightarrow> (c # e) # es))"

text \<open>\<^verbatim>\<open>strings.Join(elems, sep)\<close>.\<close>

fun strings_Join :: "string list \<Rightarrow> string \<Rightarrow> string" where
  "strings_Join [] sep = []"
| "strings_Join [e] sep = e"
| "strings_Join (e # es) sep = e @ sep @ strings_Join es sep"

text \<open>\<^verbatim>\<open>strings.HasPrefix(s, prefix)\<close>.\<close>

definition strings_HasPrefix :: "string \<Rightarrow> string \<Rightarrow> bool" where
  "strings_HasPrefix s p = (take (length p) s = p)"

text \<open>The lower-case form of an ASCII byte.\<close>

definition lowerByte :: "char \<Rightarrow> char" where
  "lowerByte c =
     (let n = (of_char c :: nat)
      in if 65 \<le> n \<and> n \<le> 90 then char_of (n + 32) else c)"

definition isASCII :: "string \<Rightarrow> bool" where
  "isASCII s = list_all (\<lambda>c. (of_char c :: nat) < 128) s"

text \<open>\<^verbatim>\<open>strings.ToLower(s)\<close>. On a string of ASCII bytes it lowers the letters \<open>A..Z\<close>.
  On any other string it is \<^verbatim>\<open>strings.Map(unicode.ToLower, s)\<close>, which reads the case
  tables of package unicode; these are no part of the program and come in as the
  parameter \<open>mapLower\<close> (for one, they lower U+0130 to \<open>i\<close>).\<close>

definition strings_ToLower :: "(string \<Rightarrow> string) \<Rightarrow> string \<Rightarrow> string" where
  "strings_ToLower mapLower s = (if isASCII s then map lowerByte s else mapLower s)"

text \<open>\<^verbatim>\<open>strings.EqualFold(s, t)\<close>: equality up to the case of ASCII letters. The
  program only folds against the letters of \<open>body\<close>, \<open>head\<close>, \<open>meta\<close>, \<open>name\<close> and
  \<open>content\<close>, which have no other case variants in Unicode.\<close>

definition strings_EqualFold :: "string \<Rightarrow> string \<Rightarrow> bool" where
  "strings_EqualFold s t = (map lowerByte s = map lowerByte t)"

text \<open>
  \<^verbatim>\<open>strings.Fields(s)\<close> splits at the runes of \<^verbatim>\<open>unicode.IsSpace\<close>: the ASCII white
  space \<open>\t \n \v \f \r\<close> and the blank, U+0085, U+00A0, U+1680, U+2000 to U+200A,
  U+2028, U+2029, U+202F, U+205F and U+3000. \<open>spaceWidth s\<close> is the number of bytes of
  the white-space rune that \<open>s\<close> begins with in UTF-8, and 0 when it begins with none.
  The first byte of each of these runes is no continuation byte, so a scan byte by byte
  finds them where a scan rune by rune does.
\<close>

definition byteAt :: "string \<Rightarrow> nat \<Rightarrow> nat" where
  "byteAt s i = (if i < length s then of_char (s ! i) else 256)"

definition spaceWidth :: "string \<Rightarrow> nat" where
  "spaceWidth s =
     (let b0 = byteAt s 0; b1 = byteAt s 1; b2 = byteAt s 2
      in if (9 \<le> b0 \<and> b0 \<le> 13) \<or> b0 = 32 then 1
         else if b0 = 0xC2 \<and> (b1 = 0x85 \<or> b1 = 0xA0) then 2
         else if b0 = 0xE1 \<and> b1 = 0x9A \<and> b2 = 0x80 then 3
         else if b0 = 0xE2 \<and> b1 = 0x80 \<and>
                 ((0x80 \<le> b2 \<and> b2 \<le> 0x8A) \<or> b2 = 0xA8 \<or> b2 = 0xA9 \<or> b2 = 0xAF) then 3
         else if b0 = 0xE2 \<and> b1 = 0x81 \<and> b2 = 0x9F then 3
         else if b0 = 0xE3 \<and> b1 = 0x80 \<and> b2 = 0x80 then 3
         else 0)"

text \<open>\<open>fieldsFrom k cur s\<close>: \<open>k\<close> bytes of a white-space rune are still to be skipped,
  and \<open>cur\<close> holds the bytes of the field that is being read, last first.\<close>

fun fieldsFrom :: "nat \<Rightarrow> string \<Rightarrow> string \<Rightarrow> string list" where
  "fieldsFrom k cur [] = (if cur = [] then [] else [rev cur])"
| "fieldsFrom k cur (c # cs) =
     (if k > 0 then fieldsFrom (k - 1) cur cs
      else if spaceWidth (c # cs) > 0
      then (if cur = [] then fieldsFrom (spaceWidth (c # cs) - 1) [] cs
            else rev cur # fieldsFrom (spaceWidth (c # cs) - 1) [] cs)
      else fieldsFrom 0 (c # cur) cs)"

definition strings_Fields :: "string \<Rightarrow> string list" where
  "strings_Fields s = fieldsFrom 0 [] s"

subsection \<open>Standard library: package path/filepath (Unix)\<close>

text \<open>
  \<^verbatim>\<open>filepath.Clean\<close> works element by element: empty elements and \<open>.\<close> are dropped,
  \<open>..\<close> removes the element written before it when there is one that is not itself
  \<open>..\<close>, is kept in front of a path that is not rooted and is dropped at the root.
  \<open>cleanElems rooted out es\<close> has the elements written so far in \<open>out\<close>, last first.
\<close>

fun cleanElems :: "bool \<Rightarrow> string list \<Rightarrow> string list \<Rightarrow> string list" where
  "cleanElems rooted out [] = rev out"
| "cleanElems rooted out (e # es) =
     (if e = [] \<or> e = ''.'' then cleanElems rooted out es
      else if e = ''..'' then
        (if out \<noteq> [] \<and> hd out \<noteq> ''..'' then cleanElems rooted (tl out) es
         else if \<not> rooted then cleanElems rooted (''..'' # out) es
         else cleanElems rooted out es)
      else cleanElems rooted (e # out) es)"

definition filepath_Clean :: "string \<Rightarrow> string" where
  "filepath_Clean p =
     (if p = [] then ''.''
      else
        (let rooted = (hd p = CHR ''/'');
             out = cleanElems rooted [] (strings_Split p (CHR ''/''));
             s = (if rooted then ''/'' else []) @ strings_Join out ''/''
         in if s = [] then ''.'' else s))"

text \<open>\<^verbatim>\<open>filepath.Join(elem...)\<close>: the elements from the first non-empty one on, joined
  with slashes and cleaned; the empty string when every element is empty.\<close>

definition filepath_Join :: "string list \<Rightarrow> string" where
  "filepath_Join elem =
     (case dropWhile (\<lambda>e. e = []) elem of
        [] \<Rightarrow> []
      | es \<Rightarrow> filepath_Clean (strings_Join es ''/''))"

text \<open>\<^verbatim>\<open>filepath.Dir(path)\<close>: the path up to its last slash, cleaned.\<close>

definition filepath_Dir :: "string \<Rightarrow> string" where
  "filepath_Dir p = filepath_Clean (rev (dropWhile (\<lambda>c. c \<noteq> CHR ''/'') (rev p)))"

subsection \<open>The two patterns\<close>

text \<open>
  Go's regexp package reads its input rune by rune: a byte sequence that is not valid
  UTF-8 counts as one rune of width 1. \<open>runeWidth\<close> is the width that
  \<^verbatim>\<open>utf8.DecodeRuneInString\<close> reports for the first rune of a non-empty string.
\<close>

definition isCont :: "string \<Rightarrow> nat \<Rightarrow> nat \<Rightarrow> nat \<Rightarrow> bool" where
  "isCont s i lo hi = (i < length s \<and> lo \<le> (of_char (s ! i) :: nat) \<and> (of_char (s ! i) :: nat) \<le> hi)"

definition runeWidth :: "string \<Rightarrow> nat" where
  "runeWidth s =
     (let b = (of_char (hd s) :: nat) in
      if b < 0xC2 then 1
      else if b \<le> 0xDF then (if isCont s 1 0x80 0xBF then 2 else 1)
      else if b \<le> 0xEF then
        (let lo = (if b = 0xE0 then 0xA0 else 0x80);
             hi = (if b = 0xED then 0x9F else 0xBF)
         in if isCont s 1 lo hi \<and> isCont s 2 0x80 0xBF then 3 else 1)
      else if b \<le> 0xF4 then
        (let lo = (if b = 0xF0 then 0x90 else 0x80);
             hi = (if b = 0xF4 then 0x8F else 0xBF)
         in if isCont s 1 lo hi \<and> isCont s 2 0x80 0xBF \<and> isCont s 3 0x80 0xBF then 4 else 1)
      else 1)"

text \<open>The pattern \<open>.\<close>: one rune that is not a newline. The result is the rune's bytes
  and the rest of the input.\<close>

definition anyRune :: "string \<Rightarrow> (string \<times> string) option" where
  "anyRune s =
     (if s = [] \<or> hd s = CHR 0x0A then None
      else Some (take (runeWidth s) s, drop (runeWidth s) s))"

text \<open>The class \<open>[^/ \n]\<close>. A rune of several bytes has no ASCII byte, so a run of the
  class is a run of bytes of the class.\<close>

definition notSlashSpaceNl :: "char \<Rightarrow> bool" where
  "notSlashSpaceNl c = (c \<noteq> CHR ''/'' \<and> c \<noteq> CHR '' '' \<and> c \<noteq> CHR 0x0A)"

text \<open>
  \<^verbatim>\<open>githubRegexp = "github.com/(?P<user>[^/ \n]+)/(?P<repo>[^/ \n]+)"\<close>, matched at
  the start of the input. Both groups are greedy; the first one has to stop right
  before a slash, so only its longest run can match. The result is the whole match and
  the two groups.
\<close>

definition githubAt :: "string \<Rightarrow> (string \<times> string \<times> string) option" where
  "githubAt s =
     (if take 6 s \<noteq> ''github'' then None
      else
        (case anyRune (drop 6 s) of
           None \<Rightarrow> None
         | Some (dot, s1) \<Rightarrow>
             if take 4 s1 \<noteq> ''com/'' then None
             else
               (let s2 = drop 4 s1;
                    user = takeWhile notSlashSpaceNl s2;
                    s3 = dropWhile notSlashSpaceNl s2
                in if user = [] \<or> s3 = [] \<or> hd s3 \<noteq> CHR ''/'' then None
                   else
                     (let repo = takeWhile notSlashSpaceNl (tl s3)
                      in if repo = [] then None
                         else Some (''github'' @ dot @ ''com/'' @ user @ ''/'' @ repo, user, repo)))))"

text \<open>\<^verbatim>\<open>githubRegexp.FindStringSubmatch\<close>: the leftmost match, \<open>None\<close> for Go's nil.
  The triple is \<open>(match[0], match[1], match[2])\<close>.\<close>

fun githubRegexp :: "string \<Rightarrow> (string \<times> string \<times> string) option" where
  "githubRegexp [] = None"
| "githubRegexp (c # cs) =
     (case githubAt (c # cs) of
        Some m \<Rightarrow> Some m
      | None \<Rightarrow> githubRegexp cs)"

text \<open>\<^verbatim>\<open>gopkgRegexp = "gopkg.in/(.+)"\<close>; the program only asks whether there is a
  match.\<close>

definition gopkgAt :: "string \<Rightarrow> bool" where
  "gopkgAt s =
     (take 5 s = ''gopkg'' \<and>
      (case anyRune (drop 5 s) of
         None \<Rightarrow> False
       | Some (dot, s1) \<Rightarrow> take 3 s1 = ''in/'' \<and> anyRune (drop 3 s1) \<noteq> None))"

fun gopkgRegexp :: "string \<Rightarrow> bool" where
  "gopkgRegexp [] = False"
| "gopkgRegexp (c # cs) = (gopkgAt (c # cs) \<or> gopkgRegexp cs)"

subsection \<open>Data\<close>

text \<open>The struct \<^verbatim>\<open>project\<close>. The map \<^verbatim>\<open>subdirTable\<close> is a Go \<^verbatim>\<open>map[string]bool\<close>.\<close>

record project =
  Name :: string
  Branch :: string
  Revision :: string
  Version :: string
  Source :: string
  Packages :: "string list"
  subdirTable :: "string \<rightharpoonup> bool"

text \<open>Reading a Go map of booleans: a key that is absent reads as \<open>false\<close>.\<close>

definition tableGet :: "(string \<rightharpoonup> bool) \<Rightarrow> string \<Rightarrow> bool" where
  "tableGet t k = (case t k of None \<Rightarrow> False | Some b \<Rightarrow> b)"

text \<open>The struct \<^verbatim>\<open>metaImport\<close>.\<close>

record metaImport =
  Prefix :: string
  VCS :: string
  RepoRoot :: string

text \<open>The errors of the program. \<open>Errno\<close> stands for the \<^verbatim>\<open>*os.PathError\<close> and
  \<^verbatim>\<open>*os.LinkError\<close> values of package os: the operation, the path and the cause.
  \<open>TooManyImports\<close> is \<^verbatim>\<open>fmt.Errorf("Too many imports: %v", imports)\<close> and
  \<open>UnsupportedVCS\<close> is \<^verbatim>\<open>fmt.Errorf("Unsupported VCS type: %s", meta.VCS)\<close>, each
  carrying the operand that the message prints.\<close>

datatype errno = ENOENT | ENOTDIR | EISDIR | EEXIST | ELOOP | EBUSY

datatype error =
    HttpError string
  | BadStatus string string
  | ReadError string
  | GzipError string
  | TarError string
  | CopyError string
  | Errno string string errno
  | XmlError string
  | TooManyImports "metaImport list"
  | UnsupportedVCS string
  | ExecError string

text \<open>\<^verbatim>\<open>os.IsExist(err)\<close>.\<close>

fun os_IsExist :: "error \<Rightarrow> bool" where
  "os_IsExist (Errno _ _ EEXIST) = True"
| "os_IsExist _ = False"

text \<open>\<^verbatim>\<open>os.IsNotExist(err)\<close>.\<close>

fun os_IsNotExist :: "error \<Rightarrow> bool" where
  "os_IsNotExist (Errno _ _ ENOENT) = True"
| "os_IsNotExist _ = False"

subsection \<open>The file system\<close>

text \<open>
  A file system maps a path, the list of the names from the root down, to a node. A
  regular file has its mode and its bytes, a symbolic link the text it points to. The
  root directory (the empty path) always exists. The model has no time stamps and checks
  no permissions.
\<close>

type_synonym path = "string list"

datatype node = Dir | File int string | Symlink string

type_synonym filesystem = "path \<rightharpoonup> node"

definition isDir :: "filesystem \<Rightarrow> path \<Rightarrow> bool" where
  "isDir fs q = (q = [] \<or> fs q = Some Dir)"

text \<open>
  The kernel resolves a name element by element. \<open>walk fs follow fuel cur cs\<close> stands in
  the directory \<open>cur\<close> and has the elements \<open>cs\<close> before it. An empty element and \<open>.\<close>
  stay, \<open>..\<close> goes up, a name goes down. A symbolic link is followed, from the directory
  that holds it or from the root when its text begins with a slash, unless it is the
  last element and \<open>follow\<close> is off. Every place on the way must be a directory; the
  last element need not exist. \<open>fuel\<close> is the number of links that may still be
  followed (Linux allows 40 for one name).
\<close>

function walk :: "filesystem \<Rightarrow> bool \<Rightarrow> nat \<Rightarrow> path \<Rightarrow> string list \<Rightarrow> errno + path" where
  "walk fs follow fuel cur [] = Inr cur"
| "walk fs follow fuel cur (c # cs) =
     (if \<not> isDir fs cur then Inl (if fs cur = None then ENOENT else ENOTDIR)
      else if c = [] \<or> c = ''.'' then walk fs follow fuel cur cs
      else if c = ''..'' then walk fs follow fuel (butlast cur) cs
      else
        (case fs (cur @ [c]) of
           Some (Symlink l) \<Rightarrow>
             if cs = [] \<and> \<not> follow then Inr (cur @ [c])
             else if l = [] then Inl ENOENT
             else if fuel = 0 then Inl ELOOP
             else walk fs follow (fuel - 1) (if hd l = CHR ''/'' then [] else cur)
                    (strings_Split l (CHR ''/'') @ cs)
         | _ \<Rightarrow> if cs = [] then Inr (cur @ [c]) else walk fs follow fuel (cur @ [c]) cs))"
  by pat_completeness auto
termination
  by (relation "measures [\<lambda>(fs, follow, fuel, cur, cs). fuel, \<lambda>(fs, follow, fuel, cur, cs). length cs]")
     auto

text \<open>The path of the working directory, which \<^verbatim>\<open>os.Getwd\<close> gives as a clean
  absolute name.\<close>

definition cwdPath :: "string \<Rightarrow> path" where
  "cwdPath wd = filter (\<lambda>c. c \<noteq> []) (strings_Split wd (CHR ''/''))"

text \<open>The resolution of a name by a system call: the empty name does not exist, a name
  that begins with a slash starts at the root, any other in the working directory.\<close>

definition resolve :: "string \<Rightarrow> filesystem \<Rightarrow> bool \<Rightarrow> string \<Rightarrow> errno + path" where
  "resolve wd fs follow name =
     (if name = [] then Inl ENOENT
      else walk fs follow 40 (if hd name = CHR ''/'' then [] else cwdPath wd)
             (strings_Split name (CHR ''/'')))"

definition nodeAt :: "filesystem \<Rightarrow> path \<Rightarrow> errno + node" where
  "nodeAt fs p =
     (if p = [] then Inr Dir
      else (case fs p of None \<Rightarrow> Inl ENOENT | Some n \<Rightarrow> Inr n))"

text \<open>\<^verbatim>\<open>os.Stat(name)\<close> follows a link at the end of the name, \<^verbatim>\<open>os.Lstat(name)\<close>
  does not.\<close>

definition os_Stat :: "string \<Rightarrow> filesystem \<Rightarrow> string \<Rightarrow> errno + node" where
  "os_Stat wd fs name =
     (case resolve wd fs True name of Inl x \<Rightarrow> Inl x | Inr p \<Rightarrow> nodeAt fs p)"

definition os_Lstat :: "string \<Rightarrow> filesystem \<Rightarrow> string \<Rightarrow> errno + node" where
  "os_Lstat wd fs name =
     (case resolve wd fs False name of Inl x \<Rightarrow> Inl x | Inr p \<Rightarrow> nodeAt fs p)"

text \<open>A name without the slashes at its end.\<close>

definition stripSlashes :: "string \<Rightarrow> string" where
  "stripSlashes name = rev (dropWhile (\<lambda>c. c = CHR ''/'') (rev name))"

text \<open>\<^verbatim>\<open>os.Mkdir(name, 0777)\<close>: the directory above must exist, the name itself must
  not; slashes at the end of the name are allowed.\<close>

definition os_Mkdir :: "string \<Rightarrow> filesystem \<Rightarrow> string \<Rightarrow> error + filesystem" where
  "os_Mkdir wd fs name =
     (if name = [] then Inl (Errno ''mkdir'' name ENOENT)
      else if stripSlashes name = [] then Inl (Errno ''mkdir'' name EEXIST)
      else
        (case resolve wd fs False (stripSlashes name) of
           Inl x \<Rightarrow> Inl (Errno ''mkdir'' name x)
         | Inr p \<Rightarrow>
             if p = [] \<or> fs p \<noteq> None then Inl (Errno ''mkdir'' name EEXIST)
             else Inr (fs(p \<mapsto> Dir))))"

text \<open>The name that \<^verbatim>\<open>os.MkdirAll\<close> creates first: with \<open>j\<close> the length of the name up
  to the last slash before its last element, the first \<open>j - 1\<close> bytes when \<open>j > 1\<close>.\<close>

definition parentName :: "string \<Rightarrow> string option" where
  "parentName name =
     (let j = length (dropWhile (\<lambda>c. c \<noteq> CHR ''/'') (dropWhile (\<lambda>c. c = CHR ''/'') (rev name)))
      in if j > 1 then Some (take (j - 1) name) else None)"

text \<open>
  \<^verbatim>\<open>os.MkdirAll(path, 0777)\<close>, as package os has it: when \<^verbatim>\<open>Stat\<close> finds the name,
  it is done if that is a directory and fails with \<open>ENOTDIR\<close> if not. Otherwise it
  makes the parent, then calls \<^verbatim>\<open>Mkdir\<close>; when that fails, the error is dropped if
  \<^verbatim>\<open>Lstat\<close> finds a directory.
\<close>

function os_MkdirAll :: "string \<Rightarrow> filesystem \<Rightarrow> string \<Rightarrow> error + filesystem" where
  "os_MkdirAll wd fs name =
     (case os_Stat wd fs name of
        Inr n \<Rightarrow> if n = Dir then Inr fs else Inl (Errno ''mkdir'' name ENOTDIR)
      | Inl x \<Rightarrow>
          (case (case parentName name of
                   None \<Rightarrow> Inr fs
                 | Some parent \<Rightarrow> os_MkdirAll wd fs parent) of
             Inl y \<Rightarrow> Inl y
           | Inr fs1 \<Rightarrow>
               (case os_Mkdir wd fs1 name of
                  Inr fs2 \<Rightarrow> Inr fs2
                | Inl y \<Rightarrow> if os_Lstat wd fs1 name = Inr Dir then Inr fs1 else Inl y)))"
  by pat_completeness auto
termination
proof (relation "measure (\<lambda>(wd, fs, name). length name)")
  show "wf (measure (\<lambda>(wd, fs, name). length name))" by simp
next
  fix wd :: string and fs :: filesystem and name x parent
  assume "parentName name = Some parent"
  then have "length parent < length name"
    using length_dropWhile_le [of "\<lambda>c. c \<noteq> CHR ''/''" "dropWhile (\<lambda>c. c = CHR ''/'') (rev name)"]
          length_dropWhile_le [of "\<lambda>c. c = CHR ''/''" "rev name"]
    by (auto simp: parentName_def Let_def split: if_splits)
  then show "((wd, fs, parent), (wd, fs, name)) \<in> measure (\<lambda>(wd, fs, name). length name)"
    by simp
qed

declare os_MkdirAll.simps [simp del]

text \<open>
  \<^verbatim>\<open>os.RemoveAll(path)\<close>: the node that the name stands for, a link at its end not
  followed, goes with everything below it. A name that does not exist, or that leads
  through something that is no directory, is no error. At the root everything below
  goes, and the removal of the root itself fails.
\<close>

definition os_RemoveAll :: "string \<Rightarrow> filesystem \<Rightarrow> string \<Rightarrow> error option \<times> filesystem" where
  "os_RemoveAll wd fs name =
     (case resolve wd fs False name of
        Inl x \<Rightarrow>
          (if x = ENOENT \<or> x = ENOTDIR then None else Some (Errno ''lstat'' name x), fs)
      | Inr p \<Rightarrow>
          (if p = [] then Some (Errno ''remove'' name EBUSY) else None,
           \<lambda>q. if prefix p q then None else fs q))"

text \<open>The mode that \<^verbatim>\<open>os.OpenFile\<close> hands to the kernel (\<^verbatim>\<open>syscallMode\<close>): the nine
  permission bits, and the set-uid, set-gid and sticky bits from where
  \<^verbatim>\<open>os.FileMode\<close> has them.\<close>

definition syscallMode :: "int \<Rightarrow> int" where
  "syscallMode perm =
     (perm AND 511) OR (if bit perm 23 then 2048 else 0) OR (if bit perm 22 then 1024 else 0) OR
     (if bit perm 20 then 512 else 0)"

text \<open>\<^verbatim>\<open>os.OpenFile(name, os.O_RDWR|os.O_CREATE, perm)\<close>: a link at the end of the name
  is followed; a file that exists is opened as it is (there is no \<^verbatim>\<open>O_TRUNC\<close>), a
  missing one is created empty, with the mode that the umask leaves. The result is the
  file system and the path of the open file.\<close>

definition os_OpenFile ::
    "string \<Rightarrow> int \<Rightarrow> filesystem \<Rightarrow> string \<Rightarrow> int \<Rightarrow> error + (filesystem \<times> path)" where
  "os_OpenFile wd um fs name perm =
     (case resolve wd fs True name of
        Inl x \<Rightarrow> Inl (Errno ''open'' name x)
      | Inr p \<Rightarrow>
          if p = [] then Inl (Errno ''open'' name EISDIR)
          else
            (case fs p of
               None \<Rightarrow> Inr (fs(p \<mapsto> File (syscallMode perm AND NOT um) []), p)
             | Some Dir \<Rightarrow> Inl (Errno ''open'' name EISDIR)
             | Some (File m c) \<Rightarrow> Inr (fs, p)
             | Some (Symlink l) \<Rightarrow> Inl (Errno ''open'' name ELOOP)))"

text \<open>\<^verbatim>\<open>io.Copy(f, files)\<close> into the file just opened: the bytes are written from
  offset 0 on, over what the file had.\<close>

definition io_Copy :: "filesystem \<Rightarrow> path \<Rightarrow> string \<Rightarrow> filesystem" where
  "io_Copy fs p bytes =
     (case fs p of
        Some (File m c) \<Rightarrow> fs(p \<mapsto> File m (bytes @ drop (length bytes) c))
      | _ \<Rightarrow> fs)"

text \<open>\<^verbatim>\<open>os.Symlink(oldname, newname)\<close> creates \<open>newname\<close> as a symbolic link to
  \<open>oldname\<close>. The name is resolved as the kernel does it, a link at its end not
  followed, and it must not exist.\<close>

definition os_Symlink :: "string \<Rightarrow> filesystem \<Rightarrow> string \<Rightarrow> string \<Rightarrow> error + filesystem" where
  "os_Symlink wd fs oldname newname =
     (case resolve wd fs False newname of
        Inl x \<Rightarrow> Inl (Errno ''symlink'' newname x)
      | Inr p \<Rightarrow>
          if p = [] \<or> fs p \<noteq> None then Inl (Errno ''symlink'' newname EEXIST)
          else Inr (fs(p \<mapsto> Symlink oldname)))"

subsection \<open>The world outside the program\<close>

text \<open>What \<^verbatim>\<open>tar.Reader.Next\<close> returns for an entry, with the entry's bytes.
  \<open>DataErr\<close> is the error that ends the reading of the bytes, if any (an archive cut
  short).\<close>

datatype typeflag = TypeReg | TypeRegA | TypeDir | TypeSymlink | TypeOther char

record tar_entry =
  hdrName :: string
  Typeflag :: typeflag
  Mode :: int
  Linkname :: string
  Data :: string
  DataErr :: "string option"

datatype tar_end = TarEOF | TarFailed string

text \<open>The tokens of \<^verbatim>\<open>xml.Decoder.RawToken\<close>; of a name only \<^verbatim>\<open>Name.Local\<close> is
  read. The token stream ends with \<^verbatim>\<open>io.EOF\<close> or with another error.\<close>

datatype xml_token =
    StartElement string "(string \<times> string) list"
  | EndElement string
  | OtherToken

datatype token_end = EOF | SyntaxError string

text \<open>The body of an HTTP response, by what its readers find in it: the gzip and tar
  readers of \<open>dlGithub\<close>, and the XML decoder of \<open>parseMetaGoImports\<close>.\<close>

datatype tar_view =
    ReadFailed string
  | GzipFailed string
  | TarStream "tar_entry list" tar_end

record http_body =
  tarView :: tar_view
  xmlTokens :: "xml_token list"
  xmlEnd :: token_end

datatype http_result =
    GetFailed string
  | Response nat string http_body

text \<open>The outcome of \<^verbatim>\<open>exec.Cmd.Output\<close>: the captured output (\<open>None\<close> for a nil
  slice), the error if the command failed, and the file system it leaves.\<close>

record exec_result =
  out :: "string option"
  err :: "string option"
  fsAfter :: filesystem

text \<open>The surroundings of a run: the globals \<^verbatim>\<open>vendorDir\<close> and \<^verbatim>\<open>*fVerbose\<close>, the
  working directory and the umask of the process, the network, the git client, and
  \<^verbatim>\<open>strings.Map(unicode.ToLower, s)\<close> of the standard library.\<close>

record env =
  vendorDir :: string
  wd :: string
  umask :: int
  fVerbose :: bool
  http_Get :: "string \<Rightarrow> http_result"
  exec_Output :: "string list \<Rightarrow> string \<Rightarrow> filesystem \<Rightarrow> exec_result"
  unicode_ToLower :: "string \<Rightarrow> string"

text \<open>What a run does to the outside, in order.\<close>

datatype event =
    Stdout string
  | Stderr string
  | StderrError error
  | HttpGet string
  | Exec "string list" string

record world =
  fs :: filesystem
  events :: "event list"

definition emit :: "event \<Rightarrow> world \<Rightarrow> world" where
  "emit e w = w\<lparr>events := events w @ [e]\<rparr>"

text \<open>\<^verbatim>\<open>fmt.Println(a...)\<close> on strings: blanks between the operands, and a newline.\<close>

definition fmt_Println :: "string list \<Rightarrow> string" where
  "fmt_Println a = strings_Join a '' '' @ [CHR 0x0A]"

subsection \<open>Archive fetch: \<^verbatim>\<open>dlGithub\<close>\<close>

text \<open>The \<^verbatim>\<open>switch hdr.Typeflag\<close> of the extraction loop, followed by the call of
  \<^verbatim>\<open>os.Chtimes\<close>, whose error the program drops and which changes nothing in a file
  system without time stamps. \<open>None\<close> is Go's \<^verbatim>\<open>nil\<close> error: the loop goes on.\<close>

definition writeEntry :: "env \<Rightarrow> tar_entry \<Rightarrow> string \<Rightarrow> world \<Rightarrow> error option \<times> world" where
  "writeEntry e hdr target w =
     (case Typeflag hdr of
        TypeDir \<Rightarrow>
          (case os_MkdirAll (wd e) (fs w) target of
             Inl x \<Rightarrow> if os_IsExist x then (None, w) else (Some x, w)
           | Inr f \<Rightarrow> (None, w\<lparr>fs := f\<rparr>))
      | TypeSymlink \<Rightarrow>
          (case os_Symlink (wd e) (fs w) target (Linkname hdr) of
             Inl x \<Rightarrow> (Some x, w)
           | Inr f \<Rightarrow> (None, w\<lparr>fs := f\<rparr>))
      | TypeOther c \<Rightarrow> (None, w)
      | _ \<Rightarrow>
          (case os_OpenFile (wd e) (umask e) (fs w) target (Mode hdr) of
             Inl x \<Rightarrow> (Some x, w)
           | Inr (f, p) \<Rightarrow>
               (let w' = w\<lparr>fs := io_Copy f p (Data hdr)\<rparr>
                in case DataErr hdr of
                     Some x \<Rightarrow> (Some (CopyError x), w')
                   | None \<Rightarrow> (None, w'))))"

text \<open>The package of an entry: \<^verbatim>\<open>filepath.Join(nameDirs[1 : len(nameDirs)-1]...)\<close>.\<close>

definition pkgOf :: "string list \<Rightarrow> string" where
  "pkgOf nameDirs = filepath_Join (butlast (tl nameDirs))"

text \<open>The allow-set of a project: the keys that its table reads as \<open>true\<close>.\<close>

definition allowSet :: "project \<Rightarrow> string set" where
  "allowSet pj = {k. tableGet (subdirTable pj) k}"

text \<open>The first \<^verbatim>\<open>continue\<close> of the loop body: the entry has more than two path
  elements and its package is not in the table.\<close>

definition skippedByPackage :: "project \<Rightarrow> string list \<Rightarrow> bool" where
  "skippedByPackage pj nameDirs =
     (length nameDirs > 2 \<and> \<not> tableGet (subdirTable pj) (pkgOf nameDirs))"

text \<open>\<^verbatim>\<open>target := filepath.Join(baseDir, filepath.Join(nameDirs[1:]...))\<close>.\<close>

definition targetOf :: "string \<Rightarrow> string list \<Rightarrow> string" where
  "targetOf baseDir nameDirs = filepath_Join [baseDir, filepath_Join (tl nameDirs)]"

text \<open>One round of the loop, for the header that \<^verbatim>\<open>files.Next()\<close> returned.\<close>

definition extractEntry :: "env \<Rightarrow> project \<Rightarrow> string \<Rightarrow> tar_entry \<Rightarrow> world \<Rightarrow> error option \<times> world" where
  "extractEntry e pj baseDir hdr w =
     (let nameDirs = strings_Split (hdrName hdr) (CHR ''/'')
      in if skippedByPackage pj nameDirs then (None, w)
         else
           (let target = targetOf baseDir nameDirs
            in if target = baseDir then (None, w)
               else
                 writeEntry e hdr target
                   (if fVerbose e then emit (Stdout (fmt_Println [''Writing:'', target])) w else w)))"

text \<open>The loop: it ends at \<^verbatim>\<open>io.EOF\<close>, at an error of the tar reader, or at the first
  error of a round.\<close>

fun extractLoop :: "env \<Rightarrow> project \<Rightarrow> string \<Rightarrow> tar_entry list \<Rightarrow> tar_end \<Rightarrow> world \<Rightarrow> error option \<times> world" where
  "extractLoop e pj baseDir [] TarEOF w = (None, w)"
| "extractLoop e pj baseDir [] (TarFailed x) w = (Some (TarError x), w)"
| "extractLoop e pj baseDir (hdr # rest) fin w =
     (case extractEntry e pj baseDir hdr w of
        (Some x, w') \<Rightarrow> (Some x, w')
      | (None, w') \<Rightarrow> extractLoop e pj baseDir rest fin w')"

text \<open>From \<^verbatim>\<open>baseDir := filepath.Join(vendorDir, pj.Name)\<close> to the end of \<open>dlGithub\<close>:
  the target directory is removed, made again, and filled. An error of the removal
  ends the function unless \<^verbatim>\<open>os.IsNotExist\<close> accepts it.\<close>

definition extractTree :: "env \<Rightarrow> project \<Rightarrow> tar_entry list \<Rightarrow> tar_end \<Rightarrow> world \<Rightarrow> error option \<times> world" where
  "extractTree e pj entries fin w =
     (let baseDir = filepath_Join [vendorDir e, Name pj];
          (gone, f1) = os_RemoveAll (wd e) (fs w) baseDir
      in if (case gone of None \<Rightarrow> False | Some x \<Rightarrow> \<not> os_IsNotExist x)
         then (gone, w\<lparr>fs := f1\<rparr>)
         else
           (case os_MkdirAll (wd e) f1 baseDir of
              Inl x \<Rightarrow> (Some x, w\<lparr>fs := f1\<rparr>)
            | Inr f \<Rightarrow> extractLoop e pj baseDir entries fin (w\<lparr>fs := f\<rparr>)))"

definition tarballUrl :: "project \<Rightarrow> string \<Rightarrow> string \<Rightarrow> string" where
  "tarballUrl pj user repo =
     ''https://api.github.com/repos/'' @ user @ ''/'' @ repo @ ''/tarball/'' @ Revision pj"

definition dlGithub :: "env \<Rightarrow> project \<Rightarrow> string \<Rightarrow> string \<Rightarrow> world \<Rightarrow> error option \<times> world" where
  "dlGithub e pj user repo w =
     (let w1 = emit (HttpGet (tarballUrl pj user repo)) w
      in case http_Get e (tarballUrl pj user repo) of
           GetFailed x \<Rightarrow> (Some (HttpError x), w1)
         | Response code status body \<Rightarrow>
             if code \<noteq> 200 then (Some (BadStatus status (tarballUrl pj user repo)), w1)
             else
               (case tarView body of
                  ReadFailed x \<Rightarrow> (Some (ReadError x), w1)
                | GzipFailed x \<Rightarrow> (Some (GzipError x), w1)
                | TarStream entries fin \<Rightarrow> extractTree e pj entries fin w1))"

subsection \<open>Raw fetch: \<^verbatim>\<open>dlGit\<close>\<close>

text \<open>Running a git command: the call is recorded, and the command's outcome comes from
  the surroundings.\<close>

definition runGit :: "env \<Rightarrow> string list \<Rightarrow> string \<Rightarrow> world \<Rightarrow> exec_result \<times> world" where
  "runGit e args dir w =
     (let r = exec_Output e args dir (fs w)
      in (r, (emit (Exec args dir) w)\<lparr>fs := fsAfter r\<rparr>))"

text \<open>The result is Go's pair \<^verbatim>\<open>([]byte, error)\<close>.\<close>

definition dlGit :: "env \<Rightarrow> project \<Rightarrow> string \<Rightarrow> world \<Rightarrow> (string option \<times> error option) \<times> world" where
  "dlGit e pj path w =
     (case githubRegexp path of
        Some (m, user, repo) \<Rightarrow>
          (let (x, w') = dlGithub e pj user repo w in ((None, x), w'))
      | None \<Rightarrow>
          (let baseDir = filepath_Join [vendorDir e, Name pj];
               made = os_MkdirAll (wd e) (fs w) (filepath_Dir baseDir)
           in case (case made of Inl x \<Rightarrow> if os_IsExist x then None else Some x | Inr f \<Rightarrow> None) of
                Some x \<Rightarrow> ((None, Some x), w)
              | None \<Rightarrow>
                  (let f1 = (case made of Inl x \<Rightarrow> fs w | Inr f \<Rightarrow> f);
                       w1 = w\<lparr>fs := snd (os_RemoveAll (wd e) f1 baseDir)\<rparr>;
                       (r1, w2) = runGit e [''git'', ''clone'', path, baseDir] [] w1
                   in case err r1 of
                        Some x \<Rightarrow> ((out r1, Some (ExecError x)), w2)
                      | None \<Rightarrow>
                          (let (r2, w3) = runGit e [''git'', ''reset'', ''--hard'', Revision pj] baseDir w2
                           in case err r2 of
                                Some x \<Rightarrow> ((out r2, Some (ExecError x)), w3)
                              | None \<Rightarrow> ((None, None), w3)))))"

subsection \<open>Meta-import discovery\<close>

text \<open>\<^verbatim>\<open>attrValue\<close>: the value of the first attribute whose name is \<open>name\<close> up to
  case, or the empty string.\<close>

fun attrValue :: "(string \<times> string) list \<Rightarrow> string \<Rightarrow> string" where
  "attrValue [] name = []"
| "attrValue ((k, v) # attrs) name =
     (if strings_EqualFold k name then v else attrValue attrs name)"

text \<open>One round of the loop of \<^verbatim>\<open>parseMetaGoImports\<close>, for the token \<open>t\<close> and the
  imports collected so far: the function returns, or the loop goes on with the imports
  it has then.\<close>

datatype round = Return | Continue "metaImport list"

definition metaRound :: "metaImport list \<Rightarrow> xml_token \<Rightarrow> round" where
  "metaRound imports t =
     (case t of
        OtherToken \<Rightarrow> Continue imports
      | EndElement n \<Rightarrow> if strings_EqualFold n ''head'' then Return else Continue imports
      | StartElement n attrs \<Rightarrow>
          if strings_EqualFold n ''body'' then Return
          else if \<not> strings_EqualFold n ''meta'' then Continue imports
          else
            (case (if attrValue attrs ''name'' = ''go-source'' \<and> length imports = 1
                   then githubRegexp (attrValue attrs ''content'') else None) of
               Some (m, user, repo) \<Rightarrow>
                 Continue [\<lparr>Prefix = Prefix (imports ! 0), VCS = ''git'', RepoRoot = m\<rparr>]
             | None \<Rightarrow>
                 if attrValue attrs ''name'' \<noteq> ''go-import'' then Continue imports
                 else
                   (let f = strings_Fields (attrValue attrs ''content'')
                    in if length f = 3
                       then Continue (imports @ [\<lparr>Prefix = f ! 0, VCS = f ! 1, RepoRoot = f ! 2\<rparr>])
                       else Continue imports)))"

text \<open>The loop. When \<^verbatim>\<open>RawToken\<close> fails, the error is dropped at \<^verbatim>\<open>io.EOF\<close> and when
  an import has been collected.\<close>

fun parseLoop :: "metaImport list \<Rightarrow> xml_token list \<Rightarrow> token_end \<Rightarrow> error + metaImport list" where
  "parseLoop imports [] EOF = Inr imports"
| "parseLoop imports [] (SyntaxError x) =
     (if length imports > 0 then Inr imports else Inl (XmlError x))"
| "parseLoop imports (t # ts) fin =
     (case metaRound imports t of
        Return \<Rightarrow> Inr imports
      | Continue imports' \<Rightarrow> parseLoop imports' ts fin)"

definition parseMetaGoImports :: "xml_token list \<Rightarrow> token_end \<Rightarrow> error + metaImport list" where
  "parseMetaGoImports ts fin = parseLoop [] ts fin"

definition goGetUrl :: "string \<Rightarrow> string" where
  "goGetUrl path = ''https://'' @ path @ ''?go-get=1''"

definition getGoImports :: "env \<Rightarrow> string \<Rightarrow> world \<Rightarrow> (error + metaImport) \<times> world" where
  "getGoImports e path w =
     (let w1 = emit (HttpGet (goGetUrl path)) w
      in case http_Get e (goGetUrl path) of
           GetFailed x \<Rightarrow> (Inl (HttpError x), w1)
         | Response code status body \<Rightarrow>
             (case parseMetaGoImports (xmlTokens body) (xmlEnd body) of
                Inl x \<Rightarrow> (Inl x, w1)
              | Inr imports \<Rightarrow>
                  if length imports \<noteq> 1 then (Inl (TooManyImports imports), w1)
                  else (Inr (imports ! 0), w1)))"

subsection \<open>\<^verbatim>\<open>download\<close>\<close>

text \<open>The first loop of \<open>download\<close>: the table of the packages, with \<open>.\<close> entered as
  the empty string.\<close>

definition mkSubdirTable :: "string list \<Rightarrow> (string \<rightharpoonup> bool)" where
  "mkSubdirTable pkgs =
     foldl (\<lambda>t dir. t((if dir = ''.'' then [] else dir) \<mapsto> True)) Map.empty pkgs"

text \<open>The string that \<open>download\<close> classifies.\<close>

definition srcOf :: "project \<Rightarrow> string" where
  "srcOf pj = (if length (Source pj) = 0 then Name pj else Source pj)"

text \<open>What \<open>download\<close> does after a failed \<open>dlGit\<close>, before it panics: the log, the
  name and the error go to the standard error stream.\<close>

definition reportGit :: "project \<Rightarrow> string option \<Rightarrow> error \<Rightarrow> world \<Rightarrow> world" where
  "reportGit pj log x w =
     emit (StderrError x)
       (emit (Stderr (fmt_Println [Name pj]))
          (case log of None \<Rightarrow> w | Some l \<Rightarrow> emit (Stderr (fmt_Println [l])) w))"

text \<open>The call of \<open>dlGit\<close> in \<open>download\<close>, with the panic on an error.\<close>

definition gitOrPanic :: "env \<Rightarrow> project \<Rightarrow> string \<Rightarrow> world \<Rightarrow> error option \<times> world" where
  "gitOrPanic e pj url w =
     (case dlGit e pj url w of
        ((log, Some x), w') \<Rightarrow> (Some x, reportGit pj log x w')
      | ((log, None), w') \<Rightarrow> (None, w'))"

text \<open>\<open>download\<close>. The result is the error it panics with, or \<open>None\<close> when it returns.\<close>

definition download :: "env \<Rightarrow> project \<Rightarrow> world \<Rightarrow> error option \<times> world" where
  "download e pj0 w =
     (let pj = pj0\<lparr>subdirTable := mkSubdirTable (Packages pj0)\<rparr>;
          src = srcOf pj
      in case githubRegexp src of
           Some (m, user, repo) \<Rightarrow>
             dlGithub e pj user repo
               (emit (Stdout (fmt_Println
                  [''Downloading from github:'', Name pj, ''('', src, Revision pj, '')''])) w)
         | None \<Rightarrow>
             if gopkgRegexp src then
               gitOrPanic e pj
                 (if \<not> strings_HasPrefix src ''https://'' then ''https://'' @ src else [])
                 (emit (Stdout (fmt_Println
                    [''Downloading from gopkg:'', Name pj, ''('', src, Revision pj, '')''])) w)
             else
               (case getGoImports e src w of
                  (Inl x, w1) \<Rightarrow> (Some x, w1)
                | (Inr meta, w1) \<Rightarrow>
                    if strings_ToLower (unicode_ToLower e) (VCS meta) \<noteq> ''git''
                    then (Some (UnsupportedVCS (VCS meta)), w1)
                    else
                      gitOrPanic e pj (RepoRoot meta)
                        (emit (Stdout (fmt_Println
                           [''Downloading from go-imports:'', Name pj, ''('', RepoRoot meta,
                            Revision pj, '')''])) w1)))"

subsection \<open>Sample surroundings\<close>

text \<open>A project of the lock file, a working directory \<open>/w\<close> with nothing in it, the
  umask 022, and servers that answer every request with one archive or one page. The
  strings of the sample runs are ASCII, so \<open>unicode_ToLower\<close> is never asked. There are
  two git clients. \<open>quietGit\<close> is a stub: every command reports success and changes
  nothing, also where git itself fails, so a run with it shows every command that the
  program starts when the commands before have succeeded, with its arguments.
  \<open>cloningGit\<close> does what git does as far as the program can tell: it does not run
  in a directory that is missing, it fails to clone the empty URL, and a clone creates
  its directory.\<close>

definition lockEntry :: "string \<Rightarrow> string \<Rightarrow> string list \<Rightarrow> project" where
  "lockEntry name source pkgs =
     \<lparr>Name = name, Branch = [], Revision = ''4f2a'', Version = [], Source = source,
      Packages = pkgs, subdirTable = Map.empty\<rparr>"

definition quietGit :: "string list \<Rightarrow> string \<Rightarrow> filesystem \<Rightarrow> exec_result" where
  "quietGit args dir f = \<lparr>out = None, err = None, fsAfter = f\<rparr>"

definition cloningGit :: "string list \<Rightarrow> string \<Rightarrow> filesystem \<Rightarrow> exec_result" where
  "cloningGit args dir f =
     (if dir \<noteq> [] \<and> os_Stat ''/w'' f dir \<noteq> Inr Dir
      then \<lparr>out = None, err = Some ''chdir: no such file or directory'', fsAfter = f\<rparr>
      else if take 2 args = [''git'', ''clone''] \<and> length args = 4
      then (if args ! 2 = []
            then \<lparr>out = None, err = Some ''exit status 128'', fsAfter = f\<rparr>
            else (case os_MkdirAll ''/w'' f (args ! 3 @ ''/.git'') of
                    Inl x \<Rightarrow> \<lparr>out = None, err = Some ''exit status 128'', fsAfter = f\<rparr>
                  | Inr f' \<Rightarrow> \<lparr>out = None, err = None, fsAfter = f'\<rparr>))
      else \<lparr>out = None, err = None, fsAfter = f\<rparr>)"

definition sampleEnv :: "(string \<Rightarrow> http_result) \<Rightarrow> env" where
  "sampleEnv h =
     \<lparr>vendorDir = ''/w/vendor'', wd = ''/w'', umask = 18, fVerbose = False, http_Get = h,
      exec_Output = quietGit, unicode_ToLower = (\<lambda>s. s)\<rparr>"

definition cloningEnv :: "(string \<Rightarrow> http_result) \<Rightarrow> env" where
  "cloningEnv h = (sampleEnv h)\<lparr>exec_Output := cloningGit\<rparr>"

definition sampleWorld :: world where
  "sampleWorld = \<lparr>fs = [[''w''] \<mapsto> Dir], events = []\<rparr>"

definition serveTar :: "tar_entry list \<Rightarrow> string \<Rightarrow> http_result" where
  "serveTar entries url =
     Response 200 ''200 OK''
       \<lparr>tarView = TarStream entries TarEOF, xmlTokens = [], xmlEnd = EOF\<rparr>"

definition servePage :: "xml_token list \<Rightarrow> string \<Rightarrow> http_result" where
  "servePage ts url =
     Response 200 ''200 OK''
       \<lparr>tarView = GzipFailed ''gzip: invalid header'', xmlTokens = ts, xmlEnd = EOF\<rparr>"



definition dirEntry :: "string \<Rightarrow> tar_entry" where
  "dirEntry name =
     \<lparr>hdrName = name, Typeflag = TypeDir, Mode = 493, Linkname = [], Data = [],
      DataErr = None\<rparr>"

definition fileEntry :: "string \<Rightarrow> string \<Rightarrow> tar_entry" where
  "fileEntry name bytes =
     \<lparr>hdrName = name, Typeflag = TypeReg, Mode = 420, Linkname = [], Data = bytes,
      DataErr = None\<rparr>"

definition linkEntry :: "string \<Rightarrow> string \<Rightarrow> tar_entry" where
  "linkEntry name linkname =
     \<lparr>hdrName = name, Typeflag = TypeSymlink, Mode = 511, Linkname = linkname, Data = [],
      DataErr = None\<rparr>"

definition goImportTag :: "string \<Rightarrow> xml_token" where
  "goImportTag content = StartElement ''meta'' [(''name'', ''go-import''), (''content'', content)]"

text \<open>The events of a run that start a git command.\<close>

fun isExec :: "event \<Rightarrow> bool" where
  "isExec (Exec args dir) = True"
| "isExec _ = False"

definition execs :: "world \<Rightarrow> event list" where
  "execs w = filter isExec (events w)"

section \<open>Meta-import discovery\<close>

lemma lower_meta_body: "map lowerByte ''meta'' \<noteq> map lowerByte ''body''"
  by code_simp

lemma meta_not_body: "strings_EqualFold n ''meta'' \<Longrightarrow> \<not> strings_EqualFold n ''body''"
  unfolding strings_EqualFold_def using lower_meta_body by metis

text \<open>A round at a \<open>meta\<close> start tag.\<close>

lemma metaRound_meta:
  assumes "strings_EqualFold n ''meta''"
  shows "metaRound imports (StartElement n attrs) =
     (case (if attrValue attrs ''name'' = ''go-source'' \<and> length imports = 1
            then githubRegexp (attrValue attrs ''content'') else None) of
        Some (m, user, repo) \<Rightarrow>
          Continue [\<lparr>Prefix = Prefix (imports ! 0), VCS = ''git'', RepoRoot = m\<rparr>]
      | None \<Rightarrow>
          if attrValue attrs ''name'' \<noteq> ''go-import'' then Continue imports
          else
            (let f = strings_Fields (attrValue attrs ''content'')
             in if length f = 3
                then Continue (imports @ [\<lparr>Prefix = f ! 0, VCS = f ! 1, RepoRoot = f ! 2\<rparr>])
                else Continue imports))"
  using assms meta_not_body[OF assms] by (simp add: metaRound_def)

text \<open>A round either keeps what was collected, possibly with one more import at the
  end, or it is the replacement at a \<open>go-source\<close> tag.\<close>

lemma metaRound_extends_or_replaces:
  assumes "metaRound imports t = Continue imports'" and "\<not> prefix imports imports'"
  shows "\<exists>n attrs m user repo. t = StartElement n attrs \<and> strings_EqualFold n ''meta'' \<and>
           attrValue attrs ''name'' = ''go-source'' \<and> length imports = 1 \<and>
           githubRegexp (attrValue attrs ''content'') = Some (m, user, repo) \<and>
           imports' = [\<lparr>Prefix = Prefix (imports ! 0), VCS = ''git'', RepoRoot = m\<rparr>]"
proof (cases t)
  case (StartElement n attrs)
  show ?thesis
  proof (cases "strings_EqualFold n ''meta''")
    case True
    from assms True show ?thesis
      unfolding StartElement metaRound_meta[OF True]
      by (auto simp: Let_def split: if_splits option.splits prod.splits)
  next
    case False
    with assms StartElement show ?thesis
      by (auto simp: metaRound_def split: if_splits)
  qed
next
  case (EndElement n)
  with assms show ?thesis by (auto simp: metaRound_def split: if_splits)
next
  case OtherToken
  with assms show ?thesis by (auto simp: metaRound_def)
qed

text \<open>
  C3. When exactly one import has been collected and the next token is a \<open>meta\<close> tag
  named \<open>go-source\<close> whose content matches the github pattern, the loop goes on with a
  single import that has the prefix of the collected one, the VCS \<open>git\<close> and the whole
  match as its repository root. And a round replaces what was collected (the list after
  it does not start with the list before it) only at such a tag, with exactly one
  import collected and a content that matches.
\<close>

theorem go_source_replaces_single_import:
  "(strings_EqualFold n ''meta'' \<and> attrValue attrs ''name'' = ''go-source'' \<and>
    length imports = 1 \<and> githubRegexp (attrValue attrs ''content'') = Some (m, user, repo) \<longrightarrow>
      parseLoop imports (StartElement n attrs # ts) fin =
      parseLoop [\<lparr>Prefix = Prefix (imports ! 0), VCS = ''git'', RepoRoot = m\<rparr>] ts fin) \<and>
   (metaRound imports t = Continue imports' \<and> \<not> prefix imports imports' \<longrightarrow>
      (\<exists>n' attrs' m' user' repo'. t = StartElement n' attrs' \<and> strings_EqualFold n' ''meta'' \<and>
           attrValue attrs' ''name'' = ''go-source'' \<and> length imports = 1 \<and>
           githubRegexp (attrValue attrs' ''content'') = Some (m', user', repo') \<and>
           imports' = [\<lparr>Prefix = Prefix (imports ! 0), VCS = ''git'', RepoRoot = m'\<rparr>]))"
proof (intro conjI impI)
  assume a: "strings_EqualFold n ''meta'' \<and> attrValue attrs ''name'' = ''go-source'' \<and>
    length imports = 1 \<and> githubRegexp (attrValue attrs ''content'') = Some (m, user, repo)"
  then have "metaRound imports (StartElement n attrs) =
      Continue [\<lparr>Prefix = Prefix (imports ! 0), VCS = ''git'', RepoRoot = m\<rparr>]"
    by (simp add: metaRound_meta)
  then show "parseLoop imports (StartElement n attrs # ts) fin =
      parseLoop [\<lparr>Prefix = Prefix (imports ! 0), VCS = ''git'', RepoRoot = m\<rparr>] ts fin"
    by simp
next
  assume "metaRound imports t = Continue imports' \<and> \<not> prefix imports imports'"
  then show "\<exists>n' attrs' m' user' repo'. t = StartElement n' attrs' \<and> strings_EqualFold n' ''meta'' \<and>
           attrValue attrs' ''name'' = ''go-source'' \<and> length imports = 1 \<and>
           githubRegexp (attrValue attrs' ''content'') = Some (m', user', repo') \<and>
           imports' = [\<lparr>Prefix = Prefix (imports ! 0), VCS = ''git'', RepoRoot = m'\<rparr>]"
    using metaRound_extends_or_replaces by blast
qed

theorem go_source_replaces_single_import_witness:
  "parseLoop [\<lparr>Prefix = ''a.b/c'', VCS = ''hg'', RepoRoot = ''https://a.b/hg/c''\<rparr>]
     [StartElement ''META''
        [(''name'', ''go-source''),
         (''content'', ''a.b/c https://github.com/o/r https://github.com/o/r/tree/master{/dir}'')]]
     EOF =
   Inr [\<lparr>Prefix = ''a.b/c'', VCS = ''git'', RepoRoot = ''github.com/o/r''\<rparr>]"
proof -
  have c: "strings_EqualFold ''META'' ''meta'' \<and>
      attrValue [(''name'', ''go-source''),
         (''content'', ''a.b/c https://github.com/o/r https://github.com/o/r/tree/master{/dir}'')]
        ''name'' = ''go-source'' \<and>
      length [\<lparr>Prefix = ''a.b/c'', VCS = ''hg'', RepoRoot = ''https://a.b/hg/c''\<rparr>] = 1 \<and>
      githubRegexp (attrValue [(''name'', ''go-source''),
         (''content'', ''a.b/c https://github.com/o/r https://github.com/o/r/tree/master{/dir}'')]
        ''content'') = Some (''github.com/o/r'', ''o'', ''r'')"
    by code_simp
  show ?thesis
    using go_source_replaces_single_import [THEN conjunct1, THEN mp, OF c, of "[]" EOF]
    by simp
qed





section \<open>The package filter of the extraction\<close>

text \<open>
  The elements of \<^verbatim>\<open>strings.Split(hdr.Name, "/")\<close> have no slash, and
  \<^verbatim>\<open>filepath.Join\<close> gives a single element without a slash back as it is.
\<close>

lemma strings_Split_nonempty: "strings_Split s c \<noteq> []"
  by (induction s) (auto split: list.splits)

lemma strings_Split_no_sep: "c \<notin> set s \<Longrightarrow> strings_Split s c = [s]"
  by (induction s) auto

lemma strings_Split_elems: "x \<in> set (strings_Split s c) \<Longrightarrow> c \<notin> set x"
proof (induction s arbitrary: x)
  case Nil
  then show ?case by simp
next
  case (Cons a s)
  show ?case
  proof (cases "a = c")
    case True
    with Cons show ?thesis by auto
  next
    case False
    obtain e es where sp: "strings_Split s c = e # es"
      using strings_Split_nonempty by (cases "strings_Split s c") auto
    with False Cons.prems have "x = a # e \<or> x \<in> set es" by auto
    then show ?thesis
    proof
      assume "x = a # e"
      moreover have "c \<notin> set e" using Cons.IH[of e] sp by simp
      ultimately show ?thesis using False by auto
    next
      assume "x \<in> set es"
      then show ?thesis using Cons.IH[of x] sp by simp
    qed
  qed
qed

lemma filepath_Clean_element: "d \<noteq> [] \<Longrightarrow> CHR ''/'' \<notin> set d \<Longrightarrow> filepath_Clean d = d"
  by (cases d) (auto simp: filepath_Clean_def strings_Split_no_sep Let_def)

lemma filepath_Join_single: "CHR ''/'' \<notin> set d \<Longrightarrow> filepath_Join [d] = d"
  by (cases "d = []") (auto simp: filepath_Join_def filepath_Clean_element)

lemma pkgOf_three:
  assumes "nameDirs = strings_Split name (CHR ''/'')" "length nameDirs = 3"
  shows "pkgOf nameDirs = nameDirs ! 1"
proof -
  from assms(2) obtain a b c where abc: "nameDirs = [a, b, c]"
    by (auto simp: length_Suc_conv numeral_3_eq_3)
  then have "b \<in> set (strings_Split name (CHR ''/''))" using assms(1) by (metis list.set_intros(1,2))
  then have "CHR ''/'' \<notin> set b" by (rule strings_Split_elems)
  then show ?thesis using abc by (simp add: pkgOf_def filepath_Join_single)
qed

text \<open>
  The table that \<open>download\<close> builds holds the packages of the lock file, with \<open>.\<close>
  entered as the empty string.
\<close>

lemma mkSubdirTable_fold:
  "tableGet (foldl (\<lambda>t dir. t((if dir = ''.'' then [] else dir) \<mapsto> True)) t0 pkgs) k \<longleftrightarrow>
     tableGet t0 k \<or> k \<in> (\<lambda>d. if d = ''.'' then [] else d) ` set pkgs"
  by (induction pkgs arbitrary: t0) (auto simp: tableGet_def)

lemma allowSet_mkSubdirTable:
  "allowSet (pj\<lparr>subdirTable := mkSubdirTable pkgs\<rparr>) = (\<lambda>d. if d = ''.'' then [] else d) ` set pkgs"
proof -
  have "\<not> tableGet Map.empty k" for k by (simp add: tableGet_def)
  then show ?thesis
    by (auto simp: allowSet_def mkSubdirTable_def mkSubdirTable_fold)
qed

text \<open>
  C2, as the code has it. An entry with more than two path elements passes the package
  filter exactly when the directory path of the entry below the wrapper, that is
  \<^verbatim>\<open>filepath.Join\<close> of all elements between the first and the last one, is in the
  allow-set. For an entry with exactly three elements this path is the second element,
  the immediate child of the wrapper; for a deeper entry it is a nested path, and the
  second element alone does not decide.
\<close>

theorem package_filter_key:
  assumes "nameDirs = strings_Split name (CHR ''/'')" and "length nameDirs > 2"
  shows "(\<not> skippedByPackage pj nameDirs \<longleftrightarrow> filepath_Join (butlast (tl nameDirs)) \<in> allowSet pj) \<and>
         (length nameDirs = 3 \<longrightarrow> (\<not> skippedByPackage pj nameDirs \<longleftrightarrow> nameDirs ! 1 \<in> allowSet pj))"
  using assms pkgOf_three[OF assms(1)]
  by (auto simp: skippedByPackage_def allowSet_def pkgOf_def)

text \<open>
  The rule at the allow-set \<open>{foo, bar}\<close>: \<open>W/foo/a.txt\<close> passes, \<open>W/baz/b.txt\<close> is
  skipped.
\<close>

theorem package_filter_key_witness:
  "\<not> skippedByPackage ((lockEntry ''github.com/o/r'' [] [''foo'', ''bar''])\<lparr>subdirTable := mkSubdirTable [''foo'', ''bar'']\<rparr>)
       (strings_Split ''W/foo/a.txt'' (CHR ''/'')) \<and>
   skippedByPackage ((lockEntry ''github.com/o/r'' [] [''foo'', ''bar''])\<lparr>subdirTable := mkSubdirTable [''foo'', ''bar'']\<rparr>)
       (strings_Split ''W/baz/b.txt'' (CHR ''/''))"
proof -
  have l: "length (strings_Split ''W/foo/a.txt'' (CHR ''/'')) = 3 \<and> length (strings_Split ''W/baz/b.txt'' (CHR ''/'')) = 3"
    by code_simp
  have v: "strings_Split ''W/foo/a.txt'' (CHR ''/'') ! 1 = ''foo'' \<and> strings_Split ''W/baz/b.txt'' (CHR ''/'') ! 1 = ''baz''"
    by code_simp
  show ?thesis
    using package_filter_key [OF refl, of "''W/foo/a.txt''"
            "(lockEntry ''github.com/o/r'' [] [''foo'', ''bar''])\<lparr>subdirTable := mkSubdirTable [''foo'', ''bar'']\<rparr>"]
          package_filter_key [OF refl, of "''W/baz/b.txt''"
            "(lockEntry ''github.com/o/r'' [] [''foo'', ''bar''])\<lparr>subdirTable := mkSubdirTable [''foo'', ''bar'']\<rparr>"]
          l v
    by (simp add: allowSet_mkSubdirTable)
qed

text \<open>
  The claim C2 as it is stated fails in both directions. With the allow-set \<open>{foo}\<close>
  the entries \<open>W/foo/bar/\<close> and \<open>W/foo/bar/a.txt\<close> are skipped although their second
  element \<open>foo\<close> is in the set; with the allow-set \<open>{foo/bar}\<close> the file
  \<open>W/foo/bar/a.txt\<close> is written although \<open>foo\<close> is not in the set.
\<close>

theorem allow_set_is_matched_against_directory_path:
  "''foo'' \<in> allowSet ((lockEntry ''github.com/o/r'' [] [''foo''])\<lparr>subdirTable := mkSubdirTable [''foo'']\<rparr>) \<and>
   strings_Split ''W/foo/bar/a.txt'' (CHR ''/'') ! 1 = ''foo'' \<and>
   fst (download
          (sampleEnv (serveTar [dirEntry ''W/'', dirEntry ''W/foo/'', fileEntry ''W/foo/c.txt'' ''yo'',
             dirEntry ''W/foo/bar/'', fileEntry ''W/foo/bar/a.txt'' ''hi'']))
          (lockEntry ''github.com/o/r'' [] [''foo'']) sampleWorld) = None \<and>
   map (fs (snd (download
          (sampleEnv (serveTar [dirEntry ''W/'', dirEntry ''W/foo/'', fileEntry ''W/foo/c.txt'' ''yo'',
             dirEntry ''W/foo/bar/'', fileEntry ''W/foo/bar/a.txt'' ''hi'']))
          (lockEntry ''github.com/o/r'' [] [''foo'']) sampleWorld)))
     [[''w'', ''vendor'', ''github.com'', ''o'', ''r'', ''foo'', ''c.txt''],
      [''w'', ''vendor'', ''github.com'', ''o'', ''r'', ''foo'', ''bar''],
      [''w'', ''vendor'', ''github.com'', ''o'', ''r'', ''foo'', ''bar'', ''a.txt'']] =
     [Some (File 420 ''yo''), None, None] \<and>
   ''foo'' \<notin> allowSet ((lockEntry ''github.com/o/r'' [] [''foo/bar''])\<lparr>subdirTable := mkSubdirTable [''foo/bar'']\<rparr>) \<and>
   fs (snd (download
          (sampleEnv (serveTar [dirEntry ''W/'', dirEntry ''W/foo/'', fileEntry ''W/foo/c.txt'' ''yo'',
             dirEntry ''W/foo/bar/'', fileEntry ''W/foo/bar/a.txt'' ''hi'']))
          (lockEntry ''github.com/o/r'' [] [''foo/bar'']) sampleWorld))
     [''w'', ''vendor'', ''github.com'', ''o'', ''r'', ''foo'', ''bar'', ''a.txt''] =
     Some (File 420 ''hi'')"
proof -
  have a: "''foo'' \<in> allowSet ((lockEntry ''github.com/o/r'' [] [''foo''])\<lparr>subdirTable := mkSubdirTable [''foo'']\<rparr>)"
    by (simp add: allowSet_mkSubdirTable)
  have b: "strings_Split ''W/foo/bar/a.txt'' (CHR ''/'') ! 1 = ''foo''"
    by code_simp
  have c: "fst (download
          (sampleEnv (serveTar [dirEntry ''W/'', dirEntry ''W/foo/'', fileEntry ''W/foo/c.txt'' ''yo'',
             dirEntry ''W/foo/bar/'', fileEntry ''W/foo/bar/a.txt'' ''hi'']))
          (lockEntry ''github.com/o/r'' [] [''foo'']) sampleWorld) = None"
    by code_simp
  have d: "map (fs (snd (download
          (sampleEnv (serveTar [dirEntry ''W/'', dirEntry ''W/foo/'', fileEntry ''W/foo/c.txt'' ''yo'',
             dirEntry ''W/foo/bar/'', fileEntry ''W/foo/bar/a.txt'' ''hi'']))
          (lockEntry ''github.com/o/r'' [] [''foo'']) sampleWorld)))
     [[''w'', ''vendor'', ''github.com'', ''o'', ''r'', ''foo'', ''c.txt''],
      [''w'', ''vendor'', ''github.com'', ''o'', ''r'', ''foo'', ''bar''],
      [''w'', ''vendor'', ''github.com'', ''o'', ''r'', ''foo'', ''bar'', ''a.txt'']] =
     [Some (File 420 ''yo''), None, None]"
    by code_simp
  have e: "''foo'' \<notin> allowSet ((lockEntry ''github.com/o/r'' [] [''foo/bar''])\<lparr>subdirTable := mkSubdirTable [''foo/bar'']\<rparr>)"
    by (simp add: allowSet_mkSubdirTable)
  have f: "fs (snd (download
          (sampleEnv (serveTar [dirEntry ''W/'', dirEntry ''W/foo/'', fileEntry ''W/foo/c.txt'' ''yo'',
             dirEntry ''W/foo/bar/'', fileEntry ''W/foo/bar/a.txt'' ''hi'']))
          (lockEntry ''github.com/o/r'' [] [''foo/bar'']) sampleWorld))
     [''w'', ''vendor'', ''github.com'', ''o'', ''r'', ''foo'', ''bar'', ''a.txt''] =
     Some (File 420 ''hi'')"
    by code_simp
  from a b c d e f show ?thesis by blast
qed

text \<open>
  C1, as the code has it. With an empty allow-set the package filter passes the entries
  with at most two path elements (those directly in the wrapper directory) and skips
  every entry with more than two: a round of the loop writes the entry when it has at
  most two elements and its target is not the target directory itself, and does nothing
  otherwise.
\<close>

theorem empty_allow_set_top_level_only:
  assumes "allowSet pj = {}"
  shows "extractEntry e pj baseDir hdr w =
     (let nameDirs = strings_Split (hdrName hdr) (CHR ''/'')
      in if length nameDirs > 2 \<or> targetOf baseDir nameDirs = baseDir then (None, w)
         else writeEntry e hdr (targetOf baseDir nameDirs)
                (if fVerbose e then emit (Stdout (fmt_Println [''Writing:'', targetOf baseDir nameDirs])) w else w))"
proof -
  have "\<And>k. \<not> tableGet (subdirTable pj) k" using assms by (auto simp: allowSet_def)
  then show ?thesis by (simp add: extractEntry_def skippedByPackage_def Let_def)
qed

text \<open>
  With no packages, the directory entry \<open>W/foo/\<close> leaves the world as it is.
\<close>

theorem empty_allow_set_top_level_only_witness:
  "extractEntry (sampleEnv (serveTar [])) (lockEntry ''github.com/o/r'' [] [])
     ''/w/vendor/github.com/o/r'' (dirEntry ''W/foo/'') sampleWorld = (None, sampleWorld)"
proof -
  have h: "allowSet (lockEntry ''github.com/o/r'' [] []) = {}"
    by (simp add: allowSet_def lockEntry_def tableGet_def)
  show ?thesis
    using empty_allow_set_top_level_only [OF h, of "sampleEnv (serveTar [])"
        "''/w/vendor/github.com/o/r''" "dirEntry ''W/foo/''" sampleWorld]
    by (simp add: dirEntry_def Let_def)
qed

text \<open>
  The claim C1 as it is stated fails: for a project with no packages the extraction
  ends without an error, \<open>W/b.txt\<close> is written, and neither \<open>W/foo/\<close> nor
  \<open>W/foo/a.txt\<close> is.
\<close>

theorem empty_allow_set_skips_deep_entries:
  "allowSet ((lockEntry ''github.com/o/r'' [] [])\<lparr>subdirTable := mkSubdirTable []\<rparr>) = {} \<and>
   fst (download
          (sampleEnv (serveTar [dirEntry ''W/'', dirEntry ''W/foo/'',
             fileEntry ''W/foo/a.txt'' ''hi'', fileEntry ''W/b.txt'' ''yo'']))
          (lockEntry ''github.com/o/r'' [] []) sampleWorld) = None \<and>
   map (fs (snd (download
          (sampleEnv (serveTar [dirEntry ''W/'', dirEntry ''W/foo/'',
             fileEntry ''W/foo/a.txt'' ''hi'', fileEntry ''W/b.txt'' ''yo'']))
          (lockEntry ''github.com/o/r'' [] []) sampleWorld)))
     [[''w'', ''vendor'', ''github.com'', ''o'', ''r'', ''b.txt''],
      [''w'', ''vendor'', ''github.com'', ''o'', ''r'', ''foo''],
      [''w'', ''vendor'', ''github.com'', ''o'', ''r'', ''foo'', ''a.txt'']] =
     [Some (File 420 ''yo''), None, None]"
proof -
  have "allowSet ((lockEntry ''github.com/o/r'' [] [])\<lparr>subdirTable := mkSubdirTable []\<rparr>) = {}"
    by (simp add: allowSet_mkSubdirTable)
  moreover have "fst (download
          (sampleEnv (serveTar [dirEntry ''W/'', dirEntry ''W/foo/'',
             fileEntry ''W/foo/a.txt'' ''hi'', fileEntry ''W/b.txt'' ''yo'']))
          (lockEntry ''github.com/o/r'' [] []) sampleWorld) = None"
    by code_simp
  moreover have "map (fs (snd (download
          (sampleEnv (serveTar [dirEntry ''W/'', dirEntry ''W/foo/'',
             fileEntry ''W/foo/a.txt'' ''hi'', fileEntry ''W/b.txt'' ''yo'']))
          (lockEntry ''github.com/o/r'' [] []) sampleWorld)))
     [[''w'', ''vendor'', ''github.com'', ''o'', ''r'', ''b.txt''],
      [''w'', ''vendor'', ''github.com'', ''o'', ''r'', ''foo''],
      [''w'', ''vendor'', ''github.com'', ''o'', ''r'', ''foo'', ''a.txt'']] =
     [Some (File 420 ''yo''), None, None]"
    by code_simp
  ultimately show ?thesis by blast
qed

section \<open>Symbolic links\<close>

text \<open>
  Resolving a name. A name that resolves, without following a link at its end, to a
  directory resolves to the same place when links are followed and when empty elements
  (slashes at the end) are added. And a resolution that ends at a place where there is
  nothing, or a regular file, ends at the same place after a directory or a regular file
  has been put there.
\<close>

lemma walk_stay: "isDir f p \<Longrightarrow> walk f follow fuel p (replicate n []) = Inr p"
  by (induction n) auto

lemma walk_nofollow_dir:
  "b = False \<Longrightarrow> walk f b fuel cur cs = Inr p \<Longrightarrow> isDir f p \<Longrightarrow>
     walk f follow fuel cur (cs @ replicate n []) = Inr p"
proof (induction f b fuel cur cs rule: walk.induct)
  case (1 fs follow' fuel cur)
  then show ?case by (simp add: walk_stay)
next
  case (2 fs follow' fuel cur c cs)
  from "2.prems" have d: "isDir fs cur" by (auto split: if_splits)
  show ?case
  proof (cases "c = [] \<or> c = ''.''")
    case True
    with 2 d show ?thesis by auto
  next
    case False
    show ?thesis
    proof (cases "c = ''..''")
      case True
      with 2 d False show ?thesis by auto
    next
      case nd: False
      show ?thesis
      proof (cases "fs (cur @ [c])")
        case None
        with 2 d False nd show ?thesis
          by (cases "cs = []") (auto simp: isDir_def)
      next
        case (Some nd')
        show ?thesis
        proof (cases nd')
          case Dir
          with 2 d False nd Some show ?thesis
            by (cases "cs = []"; cases n) (auto simp: isDir_def walk_stay)
        next
          case (File m c')
          with 2 d False nd Some show ?thesis
            by (cases "cs = []") (auto simp: isDir_def)
        next
          case (Symlink l)
          with 2 d False nd Some show ?thesis
            by (cases "cs = []") (auto simp: isDir_def split: if_splits)
        qed
      qed
    qed
  qed
qed

lemma walk_update:
  "walk f follow fuel cur cs = Inr p \<Longrightarrow> p \<noteq> [] \<Longrightarrow>
   f p = None \<or> (\<exists>m c. f p = Some (File m c)) \<Longrightarrow> \<forall>l. n \<noteq> Symlink l \<Longrightarrow>
   walk (f(p \<mapsto> n)) follow fuel cur cs = Inr p"
proof (induction f follow fuel cur cs rule: walk.induct)
  case (1 fs follow fuel cur)
  then show ?case by simp
next
  case (2 fs follow fuel cur c cs)
  define f' where "f' = fs(p \<mapsto> n)"
  note IH = "2.IH" [folded f'_def]
  note prems = "2.prems"
  from prems have d: "isDir fs cur" by (auto split: if_splits)
  from prems have nd: "\<not> isDir fs p" by (auto simp: isDir_def)
  from d nd have ne: "cur \<noteq> p" by auto
  from d ne have d': "isDir f' cur" by (auto simp: isDir_def f'_def)
  have at: "f' p = Some n" by (simp add: f'_def)
  have "walk f' follow fuel cur (c # cs) = Inr p"
  proof (cases "c = [] \<or> c = ''.''")
    case True
    with IH prems d d' show ?thesis by auto
  next
    case False
    show ?thesis
    proof (cases "c = ''..''")
      case True
      with IH prems d d' False show ?thesis by auto
    next
      case nn: False
      show ?thesis
      proof (cases "cur @ [c] = p")
        case True
        show ?thesis
        proof (cases "cs = []")
          case True
          with \<open>cur @ [c] = p\<close> prems d d' False nn at show ?thesis
            by (cases n) auto
        next
          case ncs: False
          then obtain c' cs' where "cs = c' # cs'" by (cases cs) auto
          with \<open>cur @ [c] = p\<close> prems d nd False nn have False
            by (auto split: option.splits node.splits)
          then show ?thesis ..
        qed
      next
        case np: False
        then have same: "f' (cur @ [c]) = fs (cur @ [c])" by (simp add: f'_def)
        show ?thesis
        proof (cases "fs (cur @ [c])")
          case None
          with IH prems d d' False nn np same show ?thesis
            by (cases "cs = []") auto
        next
          case (Some nd')
          show ?thesis
          proof (cases nd')
            case Dir
            with IH prems d d' False nn np Some same show ?thesis
              by (cases "cs = []") auto
          next
            case (File m c')
            with IH prems d d' False nn np Some same show ?thesis
              by (cases "cs = []") auto
          next
            case (Symlink l)
            with IH prems d d' False nn np Some same show ?thesis
              by (cases "cs = []") (auto split: if_splits)
          qed
        qed
      qed
    qed
  qed
  then show ?case by (simp only: f'_def)
qed

text \<open>Slashes at the end of a name add empty elements, which the resolution skips.\<close>

lemma strings_Split_slashes:
  "strings_Split (replicate k sep) sep = [] # replicate k []"
  by (induction k) auto

lemma strings_Split_trailing:
  "strings_Split (s @ replicate k sep) sep = strings_Split s sep @ replicate k []"
proof (induction s)
  case Nil
  then show ?case by (simp add: strings_Split_slashes)
next
  case (Cons c s)
  then show ?case
    using strings_Split_nonempty [of s sep]
    by (cases "strings_Split s sep") auto
qed

lemma stripSlashes_decomp:
  "\<exists>k. name = stripSlashes name @ replicate k (CHR ''/'')"
proof -
  let ?P = "\<lambda>c. c = CHR ''/''"
  have "\<forall>y \<in> set (takeWhile ?P (rev name)). y = CHR ''/''"
    by (auto dest: set_takeWhileD)
  then have t: "replicate (length (takeWhile ?P (rev name))) (CHR ''/'') = takeWhile ?P (rev name)"
    by (rule replicate_length_same)
  have "name = rev (takeWhile ?P (rev name) @ dropWhile ?P (rev name))"
    by simp
  also have "\<dots> = stripSlashes name @ rev (takeWhile ?P (rev name))"
    by (simp only: rev_append stripSlashes_def)
  also have "rev (takeWhile ?P (rev name)) = replicate (length (takeWhile ?P (rev name))) (CHR ''/'')"
    by (subst t [symmetric]) simp
  finally show ?thesis by blast
qed

lemma resolve_strip:
  assumes "stripSlashes name \<noteq> []"
      and "resolve cwd f False (stripSlashes name) = Inr p"
      and "isDir f p"
  shows "resolve cwd f follow name = Inr p"
proof -
  obtain k where k: "name = stripSlashes name @ replicate k (CHR ''/'')"
    using stripSlashes_decomp by blast
  let ?s = "stripSlashes name"
  from assms(1) k have ne: "name \<noteq> []" by auto
  from assms(1) k have h: "hd name = hd ?s" by (metis hd_append2)
  have sp: "strings_Split name (CHR ''/'') = strings_Split ?s (CHR ''/'') @ replicate k []"
    by (subst k) (rule strings_Split_trailing)
  from assms(1,2) have
    "walk f False 40 (if hd ?s = CHR ''/'' then [] else cwdPath cwd) (strings_Split ?s (CHR ''/'')) = Inr p"
    by (simp add: resolve_def)
  then have "walk f follow 40 (if hd ?s = CHR ''/'' then [] else cwdPath cwd)
               (strings_Split ?s (CHR ''/'') @ replicate k []) = Inr p"
    using assms(3) by (rule walk_nofollow_dir [OF refl])
  with ne h sp show ?thesis by (simp add: resolve_def)
qed

lemma resolve_follow_dir:
  assumes "resolve cwd f False name = Inr p" and "isDir f p"
  shows "resolve cwd f follow name = Inr p"
proof -
  from assms(1) have ne: "name \<noteq> []" by (auto simp: resolve_def split: if_splits)
  with assms(1) have
    "walk f False 40 (if hd name = CHR ''/'' then [] else cwdPath cwd) (strings_Split name (CHR ''/'')) = Inr p"
    by (simp add: resolve_def)
  then have "walk f follow 40 (if hd name = CHR ''/'' then [] else cwdPath cwd)
               (strings_Split name (CHR ''/'') @ replicate 0 []) = Inr p"
    using assms(2) by (rule walk_nofollow_dir [OF refl])
  with ne show ?thesis by (simp add: resolve_def)
qed

lemma resolve_update:
  assumes "resolve cwd f follow name = Inr p" and "p \<noteq> []"
      and "f p = None \<or> (\<exists>m c. f p = Some (File m c))" and "\<forall>l. n \<noteq> Symlink l"
  shows "resolve cwd (f(p \<mapsto> n)) follow name = Inr p"
proof -
  from assms(1) have ne: "name \<noteq> []" by (auto simp: resolve_def split: if_splits)
  with assms(1) have
    "walk f follow 40 (if hd name = CHR ''/'' then [] else cwdPath cwd) (strings_Split name (CHR ''/'')) = Inr p"
    by (simp add: resolve_def)
  then have "walk (f(p \<mapsto> n)) follow 40 (if hd name = CHR ''/'' then [] else cwdPath cwd)
               (strings_Split name (CHR ''/'')) = Inr p"
    using assms(2,3,4) by (rule walk_update)
  with ne show ?thesis by (simp add: resolve_def)
qed

text \<open>
  What the calls leave behind: after \<^verbatim>\<open>os.Mkdir\<close> and after \<^verbatim>\<open>os.MkdirAll\<close> have
  succeeded, \<^verbatim>\<open>os.Stat\<close> finds a directory at the name; after \<^verbatim>\<open>os.OpenFile\<close> and
  \<^verbatim>\<open>io.Copy\<close>, it finds a regular file that begins with the bytes written.
\<close>

lemma os_Mkdir_Stat:
  assumes "os_Mkdir cwd f name = Inr f2"
  shows "os_Stat cwd f2 name = Inr Dir"
proof -
  from assms have s: "stripSlashes name \<noteq> []"
    by (auto simp: os_Mkdir_def split: if_splits)
  from assms s obtain p where r: "resolve cwd f False (stripSlashes name) = Inr p"
      and p: "p \<noteq> []" and n: "f p = None" and f2: "f2 = f(p \<mapsto> Dir)"
    by (auto simp: os_Mkdir_def split: if_splits sum.splits)
  from r p n have "resolve cwd (f(p \<mapsto> Dir)) False (stripSlashes name) = Inr p"
    by (intro resolve_update) auto
  with s have "resolve cwd f2 True name = Inr p"
    unfolding f2 by (rule resolve_strip) (simp add: isDir_def)
  with p show ?thesis by (simp add: os_Stat_def nodeAt_def f2)
qed

lemma os_Lstat_Dir_Stat:
  assumes "os_Lstat cwd f name = Inr Dir"
  shows "os_Stat cwd f name = Inr Dir"
proof -
  from assms obtain p where r: "resolve cwd f False name = Inr p" and n: "nodeAt f p = Inr Dir"
    by (auto simp: os_Lstat_def split: sum.splits)
  from n have "isDir f p" by (auto simp: nodeAt_def isDir_def split: if_splits option.splits)
  with r have "resolve cwd f True name = Inr p" by (rule resolve_follow_dir)
  with n show ?thesis by (simp add: os_Stat_def)
qed

lemma os_MkdirAll_Stat:
  assumes "os_MkdirAll cwd f name = Inr f'"
  shows "os_Stat cwd f' name = Inr Dir"
proof (cases "os_Stat cwd f name")
  case (Inr n)
  with assms show ?thesis
    by (subst (asm) os_MkdirAll.simps) (auto split: if_splits)
next
  case (Inl x)
  with assms obtain fs1 where
    m: "(case os_Mkdir cwd fs1 name of
           Inr fs2 \<Rightarrow> Inr fs2
         | Inl y \<Rightarrow> if os_Lstat cwd fs1 name = Inr Dir then Inr fs1 else Inl y) = Inr f'"
    by (subst (asm) os_MkdirAll.simps) (auto split: sum.splits)
  show ?thesis
  proof (cases "os_Mkdir cwd fs1 name")
    case (Inr fs2)
    with m have "fs2 = f'" by simp
    with Inr show ?thesis by (auto intro: os_Mkdir_Stat)
  next
    case (Inl y)
    with m have "os_Lstat cwd f' name = Inr Dir" by (auto split: if_splits)
    then show ?thesis by (rule os_Lstat_Dir_Stat)
  qed
qed

lemma os_OpenFile_Stat:
  assumes "os_OpenFile cwd um f name perm = Inr (f1, p)"
  shows "\<exists>m c. os_Stat cwd (io_Copy f1 p bytes) name = Inr (File m (bytes @ c))"
proof -
  from assms have r: "resolve cwd f True name = Inr p" and p: "p \<noteq> []"
    by (auto simp: os_OpenFile_def split: sum.splits if_splits option.splits node.splits)
  from assms r p have old: "f p = None \<or> (\<exists>m c. f p = Some (File m c))"
    by (auto simp: os_OpenFile_def split: option.splits node.splits)
  from assms r p obtain m c where at: "f1 p = Some (File m c)" and f1: "f1 = f \<or> f1 = f(p \<mapsto> File m c)"
    by (auto simp: os_OpenFile_def split: option.splits node.splits)
  let ?n = "File m (bytes @ drop (length bytes) c)"
  from at f1 have eq: "io_Copy f1 p bytes = f(p \<mapsto> ?n)"
    by (auto simp: io_Copy_def)
  from r p old have "resolve cwd (f(p \<mapsto> ?n)) True name = Inr p"
    by (intro resolve_update) auto
  with p have "os_Stat cwd (io_Copy f1 p bytes) name = Inr ?n"
    by (simp add: eq os_Stat_def nodeAt_def)
  then show ?thesis by blast
qed

text \<open>
  C8. A round of the loop that writes a symbolic-link entry calls
  \<^verbatim>\<open>os.Symlink(target, hdr.Linkname)\<close>. What it does is decided by the name in
  \<open>Linkname\<close>, resolved as the kernel resolves it, a link at its end not followed. When
  the resolution fails, the round ends with that error of \<^verbatim>\<open>symlink\<close>; when it finds
  something, with \<open>EEXIST\<close>; in both cases the file system stays as it was. Otherwise
  the one change is a new symbolic link at the place that \<open>Linkname\<close> names, pointing
  to the computed target (so nothing is created at the target path, unless \<open>Linkname\<close>
  names that very place). A regular-file entry that is written without an error, in
  contrast, leaves at the target path a file that begins with the entry's bytes. A
  directory entry that is written without an error leaves a directory at the target
  path, unless \<^verbatim>\<open>os.MkdirAll\<close> failed with an error that \<^verbatim>\<open>os.IsExist\<close> accepts,
  which the program drops: then nothing has changed.
\<close>

theorem symlink_entry_lands_at_linkname:
  assumes "extractEntry e pj baseDir hdr w = (r, w')"
      and "\<not> skippedByPackage pj (strings_Split (hdrName hdr) (CHR ''/''))"
      and "targetOf baseDir (strings_Split (hdrName hdr) (CHR ''/'')) = target"
      and "target \<noteq> baseDir"
  shows "(Typeflag hdr = TypeSymlink \<longrightarrow>
            (case resolve (wd e) (fs w) False (Linkname hdr) of
               Inl x \<Rightarrow> r = Some (Errno ''symlink'' (Linkname hdr) x) \<and> fs w' = fs w
             | Inr p \<Rightarrow>
                 if p = [] \<or> fs w p \<noteq> None
                 then r = Some (Errno ''symlink'' (Linkname hdr) EEXIST) \<and> fs w' = fs w
                 else r = None \<and> fs w' = (fs w)(p \<mapsto> Symlink target))) \<and>
         (Typeflag hdr = TypeReg \<or> Typeflag hdr = TypeRegA \<longrightarrow> r = None \<longrightarrow>
            (\<exists>m c. os_Stat (wd e) (fs w') target = Inr (File m (Data hdr @ c)))) \<and>
         (Typeflag hdr = TypeDir \<longrightarrow> r = None \<longrightarrow>
            os_Stat (wd e) (fs w') target = Inr Dir \<or>
            (\<exists>x. os_MkdirAll (wd e) (fs w) target = Inl x \<and> os_IsExist x \<and> fs w' = fs w))"
proof -
  define w0 where "w0 = (if fVerbose e then emit (Stdout (fmt_Println [''Writing:'', target])) w else w)"
  have fs0: "fs w0 = fs w" by (simp add: w0_def emit_def)
  have we: "writeEntry e hdr target w0 = (r, w')"
    using assms by (simp add: extractEntry_def Let_def w0_def)
  have sym: "(case resolve (wd e) (fs w) False (Linkname hdr) of
               Inl x \<Rightarrow> r = Some (Errno ''symlink'' (Linkname hdr) x) \<and> fs w' = fs w
             | Inr p \<Rightarrow>
                 if p = [] \<or> fs w p \<noteq> None
                 then r = Some (Errno ''symlink'' (Linkname hdr) EEXIST) \<and> fs w' = fs w
                 else r = None \<and> fs w' = (fs w)(p \<mapsto> Symlink target))"
    if "Typeflag hdr = TypeSymlink"
    using we that fs0
    by (auto simp: writeEntry_def os_Symlink_def split: sum.splits if_splits)
  have reg: "\<exists>m c. os_Stat (wd e) (fs w') target = Inr (File m (Data hdr @ c))"
    if t: "Typeflag hdr = TypeReg \<or> Typeflag hdr = TypeRegA" and ok: "r = None"
  proof -
    from we t ok fs0 obtain f p where
      op: "os_OpenFile (wd e) (umask e) (fs w) target (Mode hdr) = Inr (f, p)"
      and f: "fs w' = io_Copy f p (Data hdr)"
      by (auto simp: writeEntry_def Let_def split: sum.splits prod.splits option.splits)
    from os_OpenFile_Stat [OF op, of "Data hdr"] f show ?thesis by simp
  qed
  have dir: "os_Stat (wd e) (fs w') target = Inr Dir \<or>
            (\<exists>x. os_MkdirAll (wd e) (fs w) target = Inl x \<and> os_IsExist x \<and> fs w' = fs w)"
    if t: "Typeflag hdr = TypeDir" and ok: "r = None"
  proof (cases "os_MkdirAll (wd e) (fs w) target")
    case (Inl x)
    with we t ok fs0 show ?thesis
      by (auto simp: writeEntry_def split: if_splits)
  next
    case (Inr f)
    with we t fs0 have "fs w' = f" by (auto simp: writeEntry_def)
    with os_MkdirAll_Stat [OF Inr] show ?thesis by simp
  qed
  from sym reg dir show ?thesis by blast
qed

text \<open>
  The link entry \<open>W/latest\<close> with the link name \<open>current\<close>: the link appears as
  \<open>/w/current\<close>, in the working directory. With the link name \<open>nodir/../current\<close>
  the call fails, because \<open>/w/nodir\<close> does not exist. A file entry and a directory
  entry are found at their target paths.
\<close>

theorem symlink_entry_lands_at_linkname_witness:
  "fs (snd (extractEntry (sampleEnv (serveTar [])) (lockEntry ''github.com/o/r'' [] [''.''])
              ''/w/vendor/github.com/o/r'' (linkEntry ''W/latest'' ''current'') sampleWorld)) =
     (fs sampleWorld)([''w'', ''current''] \<mapsto> Symlink ''/w/vendor/github.com/o/r/latest'') \<and>
   fst (extractEntry (sampleEnv (serveTar [])) (lockEntry ''github.com/o/r'' [] [''.''])
              ''/w/vendor/github.com/o/r'' (linkEntry ''W/latest'' ''nodir/../current'') sampleWorld) =
     Some (Errno ''symlink'' ''nodir/../current'' ENOENT) \<and>
   (\<exists>m c. os_Stat ''/w''
            (fs (snd (extractEntry (sampleEnv (serveTar [])) (lockEntry ''github.com/o/r'' [] [''.''])
                        ''/w'' (fileEntry ''W/b.txt'' ''yo'') sampleWorld))) ''/w/b.txt'' =
          Inr (File m (''yo'' @ c))) \<and>
   os_Stat ''/w''
     (fs (snd (extractEntry (sampleEnv (serveTar [])) (lockEntry ''github.com/o/r'' [] [''.''])
                 ''/w'' (dirEntry ''W/foo'') sampleWorld))) ''/w/foo'' = Inr Dir"
proof -
  let ?e = "sampleEnv (serveTar [])"
  let ?pj = "lockEntry ''github.com/o/r'' [] [''.'']"
  let ?base = "''/w/vendor/github.com/o/r''"
  let ?hdr = "linkEntry ''W/latest'' ''current''"
  let ?bad = "linkEntry ''W/latest'' ''nodir/../current''"
  let ?file = "fileEntry ''W/b.txt'' ''yo''"
  let ?dir = "dirEntry ''W/foo''"
  have wd: "wd ?e = ''/w''" by (simp add: sampleEnv_def)
  have b: "\<not> skippedByPackage ?pj (strings_Split (hdrName ?hdr) (CHR ''/''))" by code_simp
  have c: "targetOf ?base (strings_Split (hdrName ?hdr) (CHR ''/'')) =
        ''/w/vendor/github.com/o/r/latest''" by code_simp
  have d: "''/w/vendor/github.com/o/r/latest'' \<noteq> ?base" by simp
  have t: "Typeflag ?hdr = TypeSymlink" by (simp add: linkEntry_def)
  have p: "resolve (wd ?e) (fs sampleWorld) False (Linkname ?hdr) = Inr [''w'', ''current'']"
    by code_simp
  have n: "fs sampleWorld [''w'', ''current''] = None" by code_simp
  have one: "fs (snd (extractEntry ?e ?pj ?base ?hdr sampleWorld)) =
     (fs sampleWorld)([''w'', ''current''] \<mapsto> Symlink ''/w/vendor/github.com/o/r/latest'')"
    using symlink_entry_lands_at_linkname [of ?e ?pj ?base ?hdr sampleWorld, OF surjective_pairing b c d, THEN conjunct1, THEN mp, OF t, unfolded p sum.case] n
    by simp
  have b2: "\<not> skippedByPackage ?pj (strings_Split (hdrName ?bad) (CHR ''/''))" by code_simp
  have c2: "targetOf ?base (strings_Split (hdrName ?bad) (CHR ''/'')) =
        ''/w/vendor/github.com/o/r/latest''" by code_simp
  have t2: "Typeflag ?bad = TypeSymlink" by (simp add: linkEntry_def)
  have p2: "resolve (wd ?e) (fs sampleWorld) False (Linkname ?bad) = Inl ENOENT"
    by code_simp
  have l2: "Linkname ?bad = ''nodir/../current''" by (simp add: linkEntry_def)
  have two: "fst (extractEntry ?e ?pj ?base ?bad sampleWorld) =
     Some (Errno ''symlink'' ''nodir/../current'' ENOENT)"
    using symlink_entry_lands_at_linkname [of ?e ?pj ?base ?bad sampleWorld, OF surjective_pairing b2 c2 d, THEN conjunct1, THEN mp, OF t2, unfolded p2 sum.case]
    by (simp only: l2)
  have b3: "\<not> skippedByPackage ?pj (strings_Split (hdrName ?file) (CHR ''/''))" by code_simp
  have c3: "targetOf ''/w'' (strings_Split (hdrName ?file) (CHR ''/'')) = ''/w/b.txt''" by code_simp
  have d3: "''/w/b.txt'' \<noteq> ''/w''" by simp
  have t3: "Typeflag ?file = TypeReg \<or> Typeflag ?file = TypeRegA" by (simp add: fileEntry_def)
  have r3: "fst (extractEntry ?e ?pj ''/w'' ?file sampleWorld) = None" by code_simp
  have dt: "Data ?file = ''yo''" by (simp add: fileEntry_def)
  have three: "\<exists>m c. os_Stat ''/w'' (fs (snd (extractEntry ?e ?pj ''/w'' ?file sampleWorld))) ''/w/b.txt'' =
          Inr (File m (''yo'' @ c))"
    using symlink_entry_lands_at_linkname [of ?e ?pj "''/w''" ?file sampleWorld, OF surjective_pairing b3 c3 d3,
        THEN conjunct2, THEN conjunct1, THEN mp, OF t3, THEN mp, OF r3]
    by (simp only: wd dt)
  have b4: "\<not> skippedByPackage ?pj (strings_Split (hdrName ?dir) (CHR ''/''))" by code_simp
  have c4: "targetOf ''/w'' (strings_Split (hdrName ?dir) (CHR ''/'')) = ''/w/foo''" by code_simp
  have d4: "''/w/foo'' \<noteq> ''/w''" by simp
  have t4: "Typeflag ?dir = TypeDir" by (simp add: dirEntry_def)
  have r4: "fst (extractEntry ?e ?pj ''/w'' ?dir sampleWorld) = None" by code_simp
  have m4: "case os_MkdirAll ''/w'' (fs sampleWorld) ''/w/foo'' of Inl x \<Rightarrow> False | Inr f \<Rightarrow> True"
    by code_simp
  then have m4': "os_MkdirAll ''/w'' (fs sampleWorld) ''/w/foo'' \<noteq> Inl x" for x
    by (auto split: sum.splits)
  have four: "os_Stat ''/w'' (fs (snd (extractEntry ?e ?pj ''/w'' ?dir sampleWorld))) ''/w/foo'' = Inr Dir"
    using symlink_entry_lands_at_linkname [of ?e ?pj "''/w''" ?dir sampleWorld, OF surjective_pairing b4 c4 d4,
        THEN conjunct2, THEN conjunct2, THEN mp, OF t4, THEN mp, OF r4, unfolded wd]
    by (simp only: m4' simp_thms)
  show ?thesis by (rule conjI [OF one conjI [OF two conjI [OF three four]]])
qed

section \<open>Extracting twice\<close>

text \<open>
  C7, at an archive with a symbolic link followed by a regular file. The first
  extraction succeeds; it leaves the link \<open>/w/current\<close> outside the target directory and
  the file \<open>b.txt\<close> inside. The second extraction of the same archive for the same
  project removes and recreates the target directory, then fails at the link entry with
  \<open>EEXIST\<close>, because the link of the first run is still there: \<open>b.txt\<close> is missing
  from the resulting tree.
\<close>

theorem second_extraction_stops_at_symlink:
  "fst (dlGithub (sampleEnv (serveTar [dirEntry ''W/'', linkEntry ''W/latest'' ''current'', fileEntry ''W/b.txt'' ''yo'']))
          (lockEntry ''github.com/o/r'' [] [''.'']) ''o'' ''r'' sampleWorld) = None \<and>
   map (fs (snd (dlGithub (sampleEnv (serveTar [dirEntry ''W/'', linkEntry ''W/latest'' ''current'', fileEntry ''W/b.txt'' ''yo'']))
          (lockEntry ''github.com/o/r'' [] [''.'']) ''o'' ''r'' sampleWorld)))
     [[''w'', ''current''], [''w'', ''vendor'', ''github.com'', ''o'', ''r'', ''b.txt'']] =
     [Some (Symlink ''/w/vendor/github.com/o/r/latest''), Some (File 420 ''yo'')] \<and>
   fst (dlGithub (sampleEnv (serveTar [dirEntry ''W/'', linkEntry ''W/latest'' ''current'', fileEntry ''W/b.txt'' ''yo'']))
          (lockEntry ''github.com/o/r'' [] [''.'']) ''o'' ''r''
          (snd (dlGithub (sampleEnv (serveTar [dirEntry ''W/'', linkEntry ''W/latest'' ''current'', fileEntry ''W/b.txt'' ''yo'']))
                  (lockEntry ''github.com/o/r'' [] [''.'']) ''o'' ''r'' sampleWorld))) =
     Some (Errno ''symlink'' ''current'' EEXIST) \<and>
   map (fs (snd (dlGithub (sampleEnv (serveTar [dirEntry ''W/'', linkEntry ''W/latest'' ''current'', fileEntry ''W/b.txt'' ''yo'']))
          (lockEntry ''github.com/o/r'' [] [''.'']) ''o'' ''r''
          (snd (dlGithub (sampleEnv (serveTar [dirEntry ''W/'', linkEntry ''W/latest'' ''current'', fileEntry ''W/b.txt'' ''yo'']))
                  (lockEntry ''github.com/o/r'' [] [''.'']) ''o'' ''r'' sampleWorld)))))
     [[''w'', ''current''], [''w'', ''vendor'', ''github.com'', ''o'', ''r'', ''b.txt'']] =
     [Some (Symlink ''/w/vendor/github.com/o/r/latest''), None]"
  by code_simp

text \<open>
  The same archive without the link entry: the second extraction succeeds as the first
  one did and leaves the same nodes.
\<close>

lemma second_extraction_same_without_link:
  "fst (dlGithub (sampleEnv (serveTar [dirEntry ''W/'', fileEntry ''W/b.txt'' ''yo'']))
          (lockEntry ''github.com/o/r'' [] [''.'']) ''o'' ''r''
          (snd (dlGithub (sampleEnv (serveTar [dirEntry ''W/'', fileEntry ''W/b.txt'' ''yo'']))
                  (lockEntry ''github.com/o/r'' [] [''.'']) ''o'' ''r'' sampleWorld))) = None \<and>
   map (fs (snd (dlGithub (sampleEnv (serveTar [dirEntry ''W/'', fileEntry ''W/b.txt'' ''yo'']))
          (lockEntry ''github.com/o/r'' [] [''.'']) ''o'' ''r''
          (snd (dlGithub (sampleEnv (serveTar [dirEntry ''W/'', fileEntry ''W/b.txt'' ''yo'']))
                  (lockEntry ''github.com/o/r'' [] [''.'']) ''o'' ''r'' sampleWorld)))))
     [[''w'', ''current''], [''w'', ''vendor'', ''github.com'', ''o'', ''r''],
      [''w'', ''vendor'', ''github.com'', ''o'', ''r'', ''b.txt'']] =
   map (fs (snd (dlGithub (sampleEnv (serveTar [dirEntry ''W/'', fileEntry ''W/b.txt'' ''yo'']))
          (lockEntry ''github.com/o/r'' [] [''.'']) ''o'' ''r'' sampleWorld)))
     [[''w'', ''current''], [''w'', ''vendor'', ''github.com'', ''o'', ''r''],
      [''w'', ''vendor'', ''github.com'', ''o'', ''r'', ''b.txt'']]"
  by code_simp

section \<open>Dispatch\<close>

text \<open>
  Neither the extraction nor the request of the archive starts a git command.
\<close>

lemma execs_emit_Stdout [simp]: "execs (emit (Stdout s) w) = execs w"
  by (simp add: execs_def emit_def)
lemma execs_emit_HttpGet [simp]: "execs (emit (HttpGet s) w) = execs w"
  by (simp add: execs_def emit_def)
lemma execs_fs_update [simp]: "execs (w\<lparr>fs := f\<rparr>) = execs w"
  by (simp add: execs_def)

lemma execs_writeEntry: "execs (snd (writeEntry e hdr target w)) = execs w"
  by (auto simp: writeEntry_def Let_def split: typeflag.splits sum.splits option.splits prod.splits)

lemma execs_extractEntry: "execs (snd (extractEntry e pj baseDir hdr w)) = execs w"
  by (simp add: extractEntry_def Let_def execs_writeEntry)

lemma execs_extractLoop: "execs (snd (extractLoop e pj baseDir entries fin w)) = execs w"
proof (induction entries arbitrary: w)
  case Nil
  then show ?case by (cases fin) simp_all
next
  case (Cons hdr rest)
  obtain x w' where r: "extractEntry e pj baseDir hdr w = (x, w')" by (cases "extractEntry e pj baseDir hdr w")
  then have "execs w' = execs w" using execs_extractEntry[of e pj baseDir hdr w] by simp
  with r Cons.IH[of w'] show ?case by (cases x) simp_all
qed

lemma execs_extractTree: "execs (snd (extractTree e pj entries fin w)) = execs w"
  by (simp add: extractTree_def Let_def execs_extractLoop split: sum.splits prod.splits option.splits)

lemma execs_dlGithub: "execs (snd (dlGithub e pj user repo w)) = execs w"
  by (simp add: dlGithub_def Let_def execs_extractTree split: http_result.splits tar_view.splits)

text \<open>
  C10. When the path matches the github pattern, \<open>dlGit\<close> returns a nil log and the
  result of \<open>dlGithub\<close> for the matched user and repository, and starts no git command.
  So a run of \<open>dlGit\<close> that starts a git command (clone or reset) has a path that
  does not match.
\<close>

theorem dlGit_delegates_to_dlGithub:
  "(githubRegexp path = Some (m, user, repo) \<longrightarrow>
      dlGit e pj path w = ((None, fst (dlGithub e pj user repo w)), snd (dlGithub e pj user repo w)) \<and>
      execs (snd (dlGit e pj path w)) = execs w) \<and>
   (execs (snd (dlGit e pj path w)) \<noteq> execs w \<longrightarrow> githubRegexp path = None)"
proof -
  have a: "githubRegexp path = Some (m, user, repo) \<Longrightarrow>
      dlGit e pj path w = ((None, fst (dlGithub e pj user repo w)), snd (dlGithub e pj user repo w))" for m user repo
    by (simp add: dlGit_def split_beta)
  then have b: "githubRegexp path = Some (m, user, repo) \<Longrightarrow> execs (snd (dlGit e pj path w)) = execs w" for m user repo
    by (simp add: execs_dlGithub)
  from a b show ?thesis by (cases "githubRegexp path") auto
qed

text \<open>
  A github URL is fetched as an archive; for \<open>https://example.org/r.git\<close> git is run.
\<close>

theorem dlGit_delegates_to_dlGithub_witness:
  "dlGit (sampleEnv (serveTar [dirEntry ''W/'', fileEntry ''W/b.txt'' ''yo'']))
      (lockEntry ''example.org/pkg'' [] [''.'']) ''https://github.com/o/r'' sampleWorld =
     ((None, fst (dlGithub (sampleEnv (serveTar [dirEntry ''W/'', fileEntry ''W/b.txt'' ''yo'']))
                  (lockEntry ''example.org/pkg'' [] [''.'']) ''o'' ''r'' sampleWorld)),
      snd (dlGithub (sampleEnv (serveTar [dirEntry ''W/'', fileEntry ''W/b.txt'' ''yo'']))
                  (lockEntry ''example.org/pkg'' [] [''.'']) ''o'' ''r'' sampleWorld)) \<and>
   execs (snd (dlGit (sampleEnv (serveTar [dirEntry ''W/'', fileEntry ''W/b.txt'' ''yo'']))
      (lockEntry ''example.org/pkg'' [] [''.'']) ''https://github.com/o/r'' sampleWorld)) = execs sampleWorld \<and>
   githubRegexp ''https://example.org/r.git'' = None"
proof -
  have m: "githubRegexp ''https://github.com/o/r'' = Some (''github.com/o/r'', ''o'', ''r'')"
    by code_simp
  have x: "execs (snd (dlGit (sampleEnv (serveTar []))
      (lockEntry ''example.org/pkg'' [] [''.'']) ''https://example.org/r.git'' sampleWorld)) \<noteq> execs sampleWorld"
    by code_simp
  from dlGit_delegates_to_dlGithub [THEN conjunct1, THEN mp, OF m]
       dlGit_delegates_to_dlGithub [THEN conjunct2, THEN mp, OF x]
  show ?thesis by blast
qed

lemma snd_getGoImports: "snd (getGoImports e path w) = emit (HttpGet (goGetUrl path)) w"
  by (simp add: getGoImports_def Let_def split: http_result.splits sum.splits)

lemma srcOf_table [simp]: "srcOf (pj\<lparr>subdirTable := t\<rparr>) = srcOf pj"
  by (simp add: srcOf_def)

text \<open>
  C5, as the code has it. When the source matches neither pattern and the discovery
  returns an import whose VCS, in the lower case of \<^verbatim>\<open>strings.ToLower\<close>, is not
  \<open>git\<close>, \<open>download\<close> panics with the error \<open>Unsupported VCS type\<close> naming the VCS
  as it was found. The only thing it has done by then is the request of the discovery
  page: the file system is untouched, no archive has been requested and no git command
  started.
\<close>

theorem unsupported_vcs_panics_before_fetch:
  assumes "githubRegexp (srcOf pj) = None" and "\<not> gopkgRegexp (srcOf pj)"
      and "fst (getGoImports e (srcOf pj) w) = Inr meta"
      and "strings_ToLower (unicode_ToLower e) (VCS meta) \<noteq> ''git''"
  shows "download e pj w =
           (Some (UnsupportedVCS (VCS meta)), emit (HttpGet (goGetUrl (srcOf pj))) w)"
proof -
  have "getGoImports e (srcOf pj) w = (Inr meta, emit (HttpGet (goGetUrl (srcOf pj))) w)"
    using assms(3) snd_getGoImports[of e "srcOf pj" w] by (cases "getGoImports e (srcOf pj) w") simp
  with assms show ?thesis by (simp add: download_def Let_def)
qed

text \<open>
  A page that announces \<open>svn\<close>.
\<close>

theorem unsupported_vcs_panics_before_fetch_witness:
  "download
     (sampleEnv (servePage [goImportTag ''example.org/pkg svn https://example.org/svn/r'']))
     (lockEntry ''example.org/pkg'' [] [''.'']) sampleWorld =
   (Some (UnsupportedVCS ''svn''), emit (HttpGet ''https://example.org/pkg?go-get=1'') sampleWorld)"
proof -
  let ?e = "sampleEnv (servePage [goImportTag ''example.org/pkg svn https://example.org/svn/r''])"
  let ?pj = "lockEntry ''example.org/pkg'' [] [''.'']"
  let ?m = "\<lparr>Prefix = ''example.org/pkg'', VCS = ''svn'', RepoRoot = ''https://example.org/svn/r''\<rparr>"
  have s: "srcOf ?pj = ''example.org/pkg''" by (simp add: srcOf_def lockEntry_def)
  have a: "githubRegexp (srcOf ?pj) = None" unfolding s by code_simp
  have b: "\<not> gopkgRegexp (srcOf ?pj)" unfolding s by code_simp
  have c: "fst (getGoImports ?e (srcOf ?pj) sampleWorld) = Inr ?m" unfolding s by code_simp
  have d: "strings_ToLower (unicode_ToLower ?e) (VCS ?m) \<noteq> ''git''" by code_simp
  have u: "goGetUrl ''example.org/pkg'' = ''https://example.org/pkg?go-get=1''"
    by (simp add: goGetUrl_def)
  show ?thesis
    using unsupported_vcs_panics_before_fetch [OF a b c d] by (simp add: s u)
qed

text \<open>
  The claim C5 as it is stated fails at a VCS that is not the string \<open>git\<close> but is
  \<open>git\<close> in lower case: for \<open>GIT\<close> the download goes on to clone, with the git
  client that creates the directory of its clone, and returns without an error.
\<close>

theorem upper_case_git_is_accepted:
  "VCS \<lparr>Prefix = ''example.org/pkg'', VCS = ''GIT'', RepoRoot = ''https://example.org/r.git''\<rparr> \<noteq> ''git'' \<and>
   fst (getGoImports
          (cloningEnv (servePage [goImportTag ''example.org/pkg GIT https://example.org/r.git'']))
          ''example.org/pkg'' sampleWorld) =
     Inr \<lparr>Prefix = ''example.org/pkg'', VCS = ''GIT'', RepoRoot = ''https://example.org/r.git''\<rparr> \<and>
   fst (download
          (cloningEnv (servePage [goImportTag ''example.org/pkg GIT https://example.org/r.git'']))
          (lockEntry ''example.org/pkg'' [] [''.'']) sampleWorld) = None \<and>
   execs (snd (download
          (cloningEnv (servePage [goImportTag ''example.org/pkg GIT https://example.org/r.git'']))
          (lockEntry ''example.org/pkg'' [] [''.'']) sampleWorld)) =
     [Exec [''git'', ''clone'', ''https://example.org/r.git'', ''/w/vendor/example.org/pkg''] [],
      Exec [''git'', ''reset'', ''--hard'', ''4f2a''] ''/w/vendor/example.org/pkg'']"
  by code_simp

text \<open>
  C9. For a source that matches the gopkg pattern and begins with \<open>https://\<close>: when
  it does not match the github pattern, \<open>download\<close> calls \<open>dlGit\<close> with the empty
  string as the URL and panics exactly when that call returns an error; when it matches
  the github pattern as well, \<open>download\<close> fetches the archive and does not call
  \<open>dlGit\<close> at all.
\<close>

theorem gopkg_https_source_gives_empty_url:
  assumes "gopkgRegexp (srcOf pj)" and "strings_HasPrefix (srcOf pj) ''https://''"
  shows "(githubRegexp (srcOf pj) = None \<longrightarrow>
           download e pj w =
             (case dlGit e (pj\<lparr>subdirTable := mkSubdirTable (Packages pj)\<rparr>) []
                     (emit (Stdout (fmt_Println
                        [''Downloading from gopkg:'', Name pj, ''('', srcOf pj, Revision pj, '')''])) w) of
                ((log, Some x), w') \<Rightarrow>
                  (Some x, reportGit (pj\<lparr>subdirTable := mkSubdirTable (Packages pj)\<rparr>) log x w')
              | ((log, None), w') \<Rightarrow> (None, w'))) \<and>
         (githubRegexp (srcOf pj) = Some (m, user, repo) \<longrightarrow>
           download e pj w =
             dlGithub e (pj\<lparr>subdirTable := mkSubdirTable (Packages pj)\<rparr>) user repo
               (emit (Stdout (fmt_Println
                  [''Downloading from github:'', Name pj, ''('', srcOf pj, Revision pj, '')''])) w))"
  using assms by (simp add: download_def Let_def gitOrPanic_def)

text \<open>
  The source \<open>https://gopkg.in/yaml.v2\<close>: git is asked to clone the empty URL.
\<close>

theorem gopkg_https_source_gives_empty_url_witness:
  "execs (snd (download (sampleEnv (servePage []))
                 (lockEntry ''gopkg.in/yaml.v2'' ''https://gopkg.in/yaml.v2'' [''.'']) sampleWorld)) =
     [Exec [''git'', ''clone'', [], ''/w/vendor/gopkg.in/yaml.v2''] [],
      Exec [''git'', ''reset'', ''--hard'', ''4f2a''] ''/w/vendor/gopkg.in/yaml.v2'']"
proof -
  let ?pj = "lockEntry ''gopkg.in/yaml.v2'' ''https://gopkg.in/yaml.v2'' [''.'']"
  have a: "gopkgRegexp (srcOf ?pj)" by code_simp
  have b: "strings_HasPrefix (srcOf ?pj) ''https://''" by code_simp
  have c: "githubRegexp (srcOf ?pj) = None" by code_simp
  show ?thesis
    unfolding gopkg_https_source_gives_empty_url [OF a b, THEN conjunct1, THEN mp, OF c,
        of "sampleEnv (servePage [])" sampleWorld]
    by code_simp
qed

text \<open>
  The order of the rules in \<open>download\<close>, for the source or else the name of the
  project: the github pattern first, then the gopkg pattern, then the discovery.
\<close>

lemma download_first_match:
  "(githubRegexp (srcOf pj) = Some (m, user, repo) \<longrightarrow>
      download e pj w =
        dlGithub e (pj\<lparr>subdirTable := mkSubdirTable (Packages pj)\<rparr>) user repo
          (emit (Stdout (fmt_Println
             [''Downloading from github:'', Name pj, ''('', srcOf pj, Revision pj, '')''])) w)) \<and>
   (githubRegexp (srcOf pj) = None \<and> gopkgRegexp (srcOf pj) \<and>
    \<not> strings_HasPrefix (srcOf pj) ''https://'' \<longrightarrow>
      download e pj w =
        gitOrPanic e (pj\<lparr>subdirTable := mkSubdirTable (Packages pj)\<rparr>) (''https://'' @ srcOf pj)
          (emit (Stdout (fmt_Println
             [''Downloading from gopkg:'', Name pj, ''('', srcOf pj, Revision pj, '')''])) w)) \<and>
   (githubRegexp (srcOf pj) = None \<and> \<not> gopkgRegexp (srcOf pj) \<longrightarrow>
      download e pj w =
        (case getGoImports e (srcOf pj) w of
           (Inl x, w1) \<Rightarrow> (Some x, w1)
         | (Inr meta, w1) \<Rightarrow>
             if strings_ToLower (unicode_ToLower e) (VCS meta) \<noteq> ''git''
             then (Some (UnsupportedVCS (VCS meta)), w1)
             else
               gitOrPanic e (pj\<lparr>subdirTable := mkSubdirTable (Packages pj)\<rparr>) (RepoRoot meta)
                 (emit (Stdout (fmt_Println
                    [''Downloading from go-imports:'', Name pj, ''('', RepoRoot meta,
                     Revision pj, '')''])) w1)))"
  by (auto simp: download_def Let_def split: prod.splits sum.splits)

text \<open>
  C6, at a source that matches the gopkg pattern and begins with \<open>https://\<close>. The
  source is the second rule's case (it matches the gopkg pattern and not the github
  pattern), and the URL that git is asked to clone is the empty string, not a secure URL
  of the source.
\<close>

theorem gopkg_https_source_clones_nothing:
  "srcOf (lockEntry ''gopkg.in/check.v1'' ''https://gopkg.in/check.v1'' [''.'']) = ''https://gopkg.in/check.v1'' \<and>
   githubRegexp ''https://gopkg.in/check.v1'' = None \<and>
   gopkgRegexp ''https://gopkg.in/check.v1'' \<and>
   execs (snd (download (sampleEnv (servePage []))
                 (lockEntry ''gopkg.in/check.v1'' ''https://gopkg.in/check.v1'' [''.'']) sampleWorld)) =
     [Exec [''git'', ''clone'', [], ''/w/vendor/gopkg.in/check.v1''] [],
      Exec [''git'', ''reset'', ''--hard'', ''4f2a''] ''/w/vendor/gopkg.in/check.v1'']"
  by code_simp

text \<open>
  The same run with the git client that fails to clone the empty URL: \<open>download\<close>
  panics with the error of the clone, and \<^verbatim>\<open>git reset\<close> is not started.
\<close>

lemma gopkg_https_source_clone_fails:
  "fst (download (cloningEnv (servePage []))
          (lockEntry ''gopkg.in/check.v1'' ''https://gopkg.in/check.v1'' [''.'']) sampleWorld) =
     Some (ExecError ''exit status 128'') \<and>
   execs (snd (download (cloningEnv (servePage []))
                 (lockEntry ''gopkg.in/check.v1'' ''https://gopkg.in/check.v1'' [''.'']) sampleWorld)) =
     [Exec [''git'', ''clone'', [], ''/w/vendor/gopkg.in/check.v1''] []]"
  by code_simp

end
